theory Spec2Isabelle
  imports Complex_Main
begin

section \<open>Allan deviation tools: a shallow embedding of allantools.py\<close>

text \<open>
  The module works on numpy arrays of double precision floats. The embedding idealises
  a finite float as a \<^typ>\<open>real\<close> and an array as a list. A computed deviation can be
  numpy's \<open>nan\<close> (a division \<open>0.0 / 0.0\<close>, the square root of a negative number, the
  leading entries of a moving window); such a value is \<open>None\<close> of \<open>npfloat\<close>.
  Exceptions are values of the type \<open>error\<close>, and a function that can raise returns
  \<open>error + result\<close> with \<open>Inl\<close> for the exception.
\<close>

datatype error = RuntimeError | ZeroDivisionError | IndexError | ValueError | AssertionError

type_synonym npfloat = "real option"

type_synonym estimate = "real list \<times> npfloat list \<times> npfloat list \<times> nat list"

type_synonym estimator = "real list \<Rightarrow> real \<Rightarrow> real list \<Rightarrow> error + estimate"

subsection \<open>numpy and Python primitives\<close>

text \<open>
  \<open>np_div x y\<close> is the division of numpy scalars, which does not raise: \<open>0.0 / 0.0\<close>
  is \<open>nan\<close>. (numpy gives an infinity for a nonzero numerator over zero. The estimators
  select \<open>m \<ge> 1\<close> and a nonzero rate, and then the only divisor that can be zero is
  the one of \<open>totdev_phase\<close> on a series of two samples, where the numerator is an empty
  sum, see \<open>totdev_step_two_samples\<close>. In a direct call of \<open>calc_adev_phase\<close> or
  \<open>calc_hdev_phase\<close> with \<open>mj = 0\<close> the slices coincide and the differences vanish.)
\<close>

definition np_div :: "real \<Rightarrow> real \<Rightarrow> npfloat" where
  "np_div x y = (if y = 0 then None else Some (x / y))"

text \<open>\<open>np.sqrt\<close>: \<open>nan\<close> for a negative argument (numpy warns, it does not raise).\<close>

definition np_sqrt :: "real \<Rightarrow> npfloat" where
  "np_sqrt x = (if x < 0 then None else Some (sqrt x))"

text \<open>
  \<open>data[start::step]\<close> for \<open>start \<ge> 0\<close> and \<open>step > 0\<close>: the elements at the indices
  \<open>start, start + step, \<dots>\<close> below the length. Python raises ValueError for
  \<open>step = 0\<close>; the callers test that before slicing.
\<close>

definition slice_step :: "nat \<Rightarrow> nat \<Rightarrow> 'a list \<Rightarrow> 'a list" where
  "slice_step start step xs =
     map (\<lambda>i. xs ! (start + i * step)) [0..<(length xs - start + step - 1) div step]"

text \<open>\<open>data[start:]\<close> with a start that may be negative (counted from the end).\<close>

definition slice_from :: "int \<Rightarrow> 'a list \<Rightarrow> 'a list" where
  "slice_from start xs =
     drop (nat (if start < 0 then max 0 (int (length xs) + start) else start)) xs"

text \<open>\<open>data[:-k]\<close> for \<open>k \<ge> 0\<close>; \<open>data[:-0]\<close> is \<open>data[:0]\<close>, the empty array.\<close>

definition slice_to_neg :: "nat \<Rightarrow> 'a list \<Rightarrow> 'a list" where
  "slice_to_neg k xs = (if k = 0 then [] else take (length xs - k) xs)"

text \<open>\<open>np.cumsum\<close>: the running sums.\<close>

fun cumsum_from :: "real \<Rightarrow> real list \<Rightarrow> real list" where
  "cumsum_from a [] = []"
| "cumsum_from a (x # xs) = (a + x) # cumsum_from (a + x) xs"

definition cumsum :: "real list \<Rightarrow> real list" where
  "cumsum xs = cumsum_from 0 xs"

text \<open>\<open>np.unique\<close>: the distinct values, sorted.\<close>

definition np_unique :: "int list \<Rightarrow> int list" where
  "np_unique xs = sort (remdups xs)"

text \<open>
  \<open>xs[mask]\<close> for a boolean mask: the elements where the mask holds, in order. The
  module only masks an array with a mask of its own length.
\<close>

definition mask_select :: "'a list \<Rightarrow> bool list \<Rightarrow> 'a list" where
  "mask_select xs keep = map fst (filter snd (zip xs keep))"

text \<open>
  A \<open>for\<close> loop whose body can raise: the results in order, or the first exception.
\<close>

fun for_each :: "('a \<Rightarrow> error + 'b) \<Rightarrow> 'a list \<Rightarrow> error + 'b list" where
  "for_each f [] = Inr []"
| "for_each f (x # xs) =
     (case f x of
        Inl e \<Rightarrow> Inl e
      | Inr y \<Rightarrow> (case for_each f xs of Inl e \<Rightarrow> Inl e | Inr ys \<Rightarrow> Inr (y # ys)))"

subsection \<open>Tau selection\<close>

text \<open>
  \<open>tau_m(data, rate, taus)\<close>: raises for \<open>rate == 0\<close>; keeps the taus with
  \<open>0 < tau < (1 / rate) * len(data)\<close>, floors \<open>tau * rate\<close>, drops the zeros, sorts and
  removes duplicates; \<open>taus2 = m / rate\<close>. The two \<open>print\<close> statements have no effect
  on the result. The arithmetic here is exact; \<open>tau_m_binary64\<close> below rounds it.
  \<open>np.floor\<close> returns floats with integral values; the model keeps them
  as integers, and the estimators use them as slice bounds through \<open>nat\<close> (the selected
  values are positive, see \<open>tau_m_sorted_pos\<close>).
\<close>

definition tau_m :: "real list \<Rightarrow> real \<Rightarrow> real list \<Rightarrow> error + (real list \<times> int list \<times> real list)" where
  "tau_m data rate taus =
     (if rate = 0 then Inl RuntimeError
      else
        let taus_valid = filter (\<lambda>t. t < (1 / rate) * real (length data) \<and> t > 0) taus;
            m = map (\<lambda>t. \<lfloor>t * rate\<rfloor>) taus_valid;
            m = filter (\<lambda>k. k \<noteq> 0) m;
            m = np_unique m;
            taus2 = map (\<lambda>k. real_of_int k / rate) m
        in Inr (data, m, taus2))"

subsection \<open>Tau selection in double precision\<close>

text \<open>
  Whether a requested tau passes the tests of \<open>tau_m\<close>, and which m it gives, depends on
  the rounding of the double precision operations. \<open>round_binary64 x\<close> is the double
  nearest to \<open>x\<close>: 53 significant bits, a tie goes to the even mantissa, and below
  \<open>2 powi (- 1022)\<close> the spacing is that of the subnormal numbers. Overflow to an
  infinity is not modelled.
\<close>

definition round_half_even :: "real \<Rightarrow> int" where
  "round_half_even q =
     (let f = \<lfloor>q\<rfloor> in
      if q - of_int f < 1 / 2 then f
      else if 1 / 2 < q - of_int f then f + 1
      else if even f then f else f + 1)"

definition round_binary64 :: "real \<Rightarrow> real" where
  "round_binary64 x =
     (if x = 0 then 0
      else
        let e = max (- 1022) \<lfloor>log 2 \<bar>x\<bar>\<rfloor>;
            ulp = 2 powi (e - 52)
        in of_int (round_half_even (x / ulp)) * ulp)"

text \<open>
  The three float expressions of \<open>tau_m\<close>, each operation rounded:
  \<open>(1 / float(rate)) * float(len(data))\<close> (the length converts exactly),
  \<open>np.floor(taus * rate)\<close> and \<open>m / float(rate)\<close>.
\<close>

definition tau_bound_binary64 :: "real \<Rightarrow> nat \<Rightarrow> real" where
  "tau_bound_binary64 rate n = round_binary64 (round_binary64 (1 / rate) * real n)"

definition tau_floor_binary64 :: "real \<Rightarrow> real \<Rightarrow> int" where
  "tau_floor_binary64 rate t = \<lfloor>round_binary64 (t * rate)\<rfloor>"

definition m_tau_binary64 :: "real \<Rightarrow> int \<Rightarrow> real" where
  "m_tau_binary64 rate k = round_binary64 (real_of_int k / rate)"

text \<open>
  \<open>tau_m\<close> in double precision, for a rate and taus that are doubles: the statements
  of \<open>tau_m\<close> in their order, with the three expressions above.
\<close>

definition tau_m_binary64 :: "real list \<Rightarrow> real \<Rightarrow> real list \<Rightarrow> error + (real list \<times> int list \<times> real list)" where
  "tau_m_binary64 data rate taus =
     (if rate = 0 then Inl RuntimeError
      else
        let taus_valid = filter (\<lambda>t. t < tau_bound_binary64 rate (length data) \<and> t > 0) taus;
            m = map (tau_floor_binary64 rate) taus_valid;
            m = filter (\<lambda>k. k \<noteq> 0) m;
            m = np_unique m;
            taus2 = map (m_tau_binary64 rate) m
        in Inr (data, m, taus2))"

subsection \<open>Result filter\<close>

text \<open>\<open>remove_small_ns\<close>: the entries of the four arrays where \<open>ns > 1\<close>.\<close>

definition remove_small_ns :: "'t list \<Rightarrow> 'd list \<Rightarrow> 'e list \<Rightarrow> nat list \<Rightarrow> 't list \<times> 'd list \<times> 'e list \<times> nat list" where
  "remove_small_ns taus devs deverrs ns =
     (let ns_big_enough = map (\<lambda>n. n > 1) ns;
          o_taus = mask_select taus ns_big_enough;
          o_dev = mask_select devs ns_big_enough;
          o_err = mask_select deverrs ns_big_enough;
          o_n = mask_select ns ns_big_enough
      in (o_taus, o_dev, o_err, o_n))"

text \<open>
  The loop of every estimator fills three arrays, one entry per selected m; the model
  collects the triples and splits them into the arrays.
\<close>

definition filtered :: "real list \<Rightarrow> (npfloat \<times> npfloat \<times> nat) list \<Rightarrow> estimate" where
  "filtered taus_used rs =
     remove_small_ns taus_used (map fst rs) (map (fst \<circ> snd) rs) (map (snd \<circ> snd) rs)"

subsection \<open>Phase conversion\<close>

text \<open>
  \<open>frequency2phase\<close>: \<open>dt = 1.0 / float(rate)\<close> is a division of Python floats and
  raises ZeroDivisionError for \<open>rate = 0\<close>; then the running sums times \<open>dt\<close>, with a
  zero inserted in front.
\<close>

definition frequency2phase :: "real list \<Rightarrow> real \<Rightarrow> error + real list" where
  "frequency2phase freqdata rate =
     (if rate = 0 then Inl ZeroDivisionError
      else
        let dt = 1 / rate;
            phasedata = map (\<lambda>c. c * dt) (cumsum freqdata)
        in Inr (0 # phasedata))"

subsection \<open>Allan deviation and overlapping Allan deviation\<close>

text \<open>
  \<open>calc_adev_phase(data, rate, mj, stride)\<close>. The three slices are cut to length \<open>n\<close>
  and combined elementwise. When \<open>n\<close> was 0 and is set to 1, the slices cut to one
  element have lengths 0 and 1, and numpy broadcasts them to the empty array: this is
  what \<open>zip\<close> gives.
\<close>

definition second_diff :: "real list \<Rightarrow> real list \<Rightarrow> real list \<Rightarrow> real list" where
  "second_diff d2 d1 d0 = map (\<lambda>(a, b, c). a - 2 * b + c) (zip d2 (zip d1 d0))"

definition sum_sq :: "real list \<Rightarrow> real" where
  "sum_sq v_arr = sum_list (map (\<lambda>v. v * v) v_arr)"

definition calc_adev_phase :: "real list \<Rightarrow> real \<Rightarrow> nat \<Rightarrow> nat \<Rightarrow> error + (npfloat \<times> npfloat \<times> nat)" where
  "calc_adev_phase data rate mj stride =
     (if stride = 0 then Inl ValueError
      else
        let d2 = slice_step (2 * mj) stride data;
            d1 = slice_step (1 * mj) stride data;
            d0 = slice_step 0 stride data;
            n = min (length d0) (min (length d1) (length d2));
            n = (if n = 0 then 1 else n);
            v_arr = second_diff (take n d2) (take n d1) (take n d0);
            s = sum_sq v_arr;
            dev = map_option (\<lambda>q. q * rate) (np_div (sqrt (s / (2 * real n))) (real mj));
            deverr = map_option (\<lambda>d. d / sqrt (real n)) dev
        in Inr (dev, deverr, n))"

definition adev_phase :: estimator where
  "adev_phase data rate taus =
     (case tau_m data rate taus of
        Inl e \<Rightarrow> Inl e
      | Inr (data, m, taus_used) \<Rightarrow>
          (case for_each (\<lambda>mj. calc_adev_phase data rate (nat mj) (nat mj)) m of
             Inl e \<Rightarrow> Inl e
           | Inr rs \<Rightarrow> Inr (filtered taus_used rs)))"

definition oadev_phase :: estimator where
  "oadev_phase data rate taus =
     (case tau_m data rate taus of
        Inl e \<Rightarrow> Inl e
      | Inr (data, m, taus_used) \<Rightarrow>
          (case for_each (\<lambda>mj. calc_adev_phase data rate (nat mj) 1) m of
             Inl e \<Rightarrow> Inl e
           | Inr rs \<Rightarrow> Inr (filtered taus_used rs)))"

definition adev :: estimator where
  "adev data rate taus =
     (case frequency2phase data rate of
        Inl e \<Rightarrow> Inl e
      | Inr phase \<Rightarrow> adev_phase phase rate taus)"

definition oadev :: estimator where
  "oadev freqdata rate taus =
     (case frequency2phase freqdata rate of
        Inl e \<Rightarrow> Inl e
      | Inr phase \<Rightarrow> oadev_phase phase rate taus)"

subsection \<open>Hadamard deviation and overlapping Hadamard deviation\<close>

text \<open>
  \<open>calc_hdev_phase(data, rate, mj, stride)\<close>: \<open>tau0 = 1.0 / float(rate)\<close> raises for
  \<open>rate = 0\<close>. The differences are taken with the count \<open>n\<close> as it is, and \<open>n\<close> is
  set to 1 afterwards when it is 0.
\<close>

definition third_diff :: "real list \<Rightarrow> real list \<Rightarrow> real list \<Rightarrow> real list \<Rightarrow> real list" where
  "third_diff d3 d2 d1 d0 =
     map (\<lambda>(a, b, c, d). a - 3 * b + 3 * c - d) (zip d3 (zip d2 (zip d1 d0)))"

definition calc_hdev_phase :: "real list \<Rightarrow> real \<Rightarrow> nat \<Rightarrow> nat \<Rightarrow> error + (npfloat \<times> npfloat \<times> nat)" where
  "calc_hdev_phase data rate mj stride =
     (if rate = 0 then Inl ZeroDivisionError
      else if stride = 0 then Inl ValueError
      else
        let tau0 = 1 / rate;
            d3 = slice_step (3 * mj) stride data;
            d2 = slice_step (2 * mj) stride data;
            d1 = slice_step (1 * mj) stride data;
            d0 = slice_step 0 stride data;
            n = min (length d0) (min (length d1) (min (length d2) (length d3)));
            v_arr = third_diff (take n d3) (take n d2) (take n d1) (take n d0);
            s = sum_sq v_arr;
            n = (if n = 0 then 1 else n);
            h = np_div (sqrt (s / 6 / real n)) (tau0 * real mj);
            e = map_option (\<lambda>d. d / sqrt (real n)) h
        in Inr (h, e, n))"

definition ohdev_phase :: estimator where
  "ohdev_phase data rate taus =
     (case tau_m data rate taus of
        Inl e \<Rightarrow> Inl e
      | Inr (data, m, taus_used) \<Rightarrow>
          (case for_each (\<lambda>mj. calc_hdev_phase data rate (nat mj) 1) m of
             Inl e \<Rightarrow> Inl e
           | Inr rs \<Rightarrow> Inr (filtered taus_used rs)))"

definition hdev_phase :: estimator where
  "hdev_phase data rate taus =
     (case tau_m data rate taus of
        Inl e \<Rightarrow> Inl e
      | Inr (data, m, taus_used) \<Rightarrow>
          (case for_each (\<lambda>mj. calc_hdev_phase data rate (nat mj) (nat mj)) m of
             Inl e \<Rightarrow> Inl e
           | Inr rs \<Rightarrow> Inr (filtered taus_used rs)))"

definition ohdev :: estimator where
  "ohdev freqdata rate taus =
     (case frequency2phase freqdata rate of
        Inl e \<Rightarrow> Inl e
      | Inr phase \<Rightarrow> ohdev_phase phase rate taus)"

definition hdev :: estimator where
  "hdev freqdata rate taus =
     (case frequency2phase freqdata rate of
        Inl e \<Rightarrow> Inl e
      | Inr phase \<Rightarrow> hdev_phase phase rate taus)"

subsection \<open>Modified Allan deviation and time deviation\<close>

text \<open>
  The body of the loop of \<open>mdev_phase\<close> for one m and its tau \<open>taus_used[idx]\<close>.
  \<open>data[a:b]\<close> is \<open>take (b - a) (drop a data)\<close>.
\<close>

definition mdev_step :: "real list \<Rightarrow> nat \<Rightarrow> real \<Rightarrow> npfloat \<times> npfloat \<times> nat" where
  "mdev_step data m tau =
     (let d0 = take m data;
          d1 = take m (drop m data);
          d2 = take m (drop (2 * m) data);
          e = min (length d0) (min (length d1) (length d2));
          v = sum_list (second_diff (take e d2) (take e d1) (take e d0));
          s = v * v;
          d3 = drop (3 * m) data;
          d2 = drop (2 * m) data;
          d1 = drop (1 * m) data;
          d0 = data;
          e = min (length d0) (min (length d1) (min (length d2) (length d3)));
          n = e + 1;
          v_arr = map (\<lambda>c. v + c) (cumsum (third_diff (take e d3) (take e d2) (take e d1) (take e d0)));
          s = s + sum_sq v_arr;
          s = np_div s (2 * real m * real m * tau * tau * real n);
          s = Option.bind s np_sqrt
      in (s, map_option (\<lambda>d. d / sqrt (real n)) s, n))"

definition mdev_phase :: estimator where
  "mdev_phase data rate taus =
     (case tau_m data rate taus of
        Inl e \<Rightarrow> Inl e
      | Inr (data, ms, taus_used) \<Rightarrow>
          Inr (filtered taus_used (map (\<lambda>(m, tau). mdev_step data (nat m) tau) (zip ms taus_used))))"

definition mdev :: estimator where
  "mdev freqdata rate taus =
     (case frequency2phase freqdata rate of
        Inl e \<Rightarrow> Inl e
      | Inr phase \<Rightarrow> mdev_phase phase rate taus)"

definition tdev_phase :: estimator where
  "tdev_phase phase rate taus =
     (case mdev_phase phase rate taus of
        Inl e \<Rightarrow> Inl e
      | Inr (taus2, md, mde, ns) \<Rightarrow>
          let td = map (\<lambda>(t, d). map_option (\<lambda>d. t * d / sqrt 3) d) (zip taus2 md);
              tde = map (\<lambda>(d, n). Option.bind d (\<lambda>d. np_div d (sqrt (real n)))) (zip td ns)
          in Inr (taus2, td, tde, ns))"

definition tdev :: estimator where
  "tdev data rate taus =
     (case frequency2phase data rate of
        Inl e \<Rightarrow> Inl e
      | Inr phase \<Rightarrow> tdev_phase phase rate taus)"

subsection \<open>Total deviation\<close>

text \<open>
  The body of the loop of \<open>totdev_phase\<close>: \<open>x\<close> is the extended array, \<open>n\<close> the
  length of the data and \<open>mid = len(x1)\<close>. The divisor \<open>2 (mj / rate)\<^sup>2 (n - 2)\<close>
  is zero for \<open>n = 2\<close>.
\<close>

definition totdev_step :: "real list \<Rightarrow> real \<Rightarrow> nat \<Rightarrow> nat \<Rightarrow> int \<Rightarrow> npfloat \<times> npfloat \<times> nat" where
  "totdev_step x rate n mid mj =
     (let d0 = slice_from (int mid + 1) x;
          d1 = slice_from (int mid + mj + 1) x;
          d1n = slice_from (int mid - mj + 1) x;
          e = min (length d0) (min (length d1) (length d1n));
          v_arr = second_diff (take e d1n) (take e d0) (take e d1);
          dev = sum_sq (take mid v_arr);
          dev = np_div dev (2 * (real_of_int mj / rate)\<^sup>2 * (real n - 2));
          dev = Option.bind dev np_sqrt
      in (dev, Option.bind dev (\<lambda>d. np_div d (sqrt (real mid))), mid))"

text \<open>
  \<open>totdev_phase\<close>: after the tau selection, \<open>data[0]\<close> raises IndexError on an empty
  array and \<open>np.ones((n - 2,))\<close> raises ValueError for \<open>n = 1\<close>. \<open>data[1:-1]\<close> is
  the data without its first and last element; the extended array is the reflected
  start, the data and the reflected end.
\<close>

definition totdev_phase :: estimator where
  "totdev_phase data rate taus =
     (case tau_m data rate taus of
        Inl e \<Rightarrow> Inl e
      | Inr (data, m, taus_used) \<Rightarrow>
          let n = length data in
          if n = 0 then Inl IndexError
          else if n < 2 then Inl ValueError
          else
            let inner = take (n - 2) (drop 1 data);
                x1 = rev (map (\<lambda>d. 2 * (data ! 0) - d) inner);
                x2 = map (\<lambda>d. 2 * last data - d) (rev inner);
                x = x1 @ data @ x2;
                mid = length x1
            in Inr (filtered taus_used (map (totdev_step x rate n mid) m)))"

definition totdev :: estimator where
  "totdev freqdata rate taus =
     (case frequency2phase freqdata rate of
        Inl e \<Rightarrow> Inl e
      | Inr phasedata \<Rightarrow> totdev_phase phasedata rate taus)"

subsection \<open>Time interval error: rms and maximum\<close>

text \<open>
  The body of the loop of \<open>tierms_phase\<close>: \<open>np.column_stack\<close> raises ValueError for
  columns of different lengths; \<open>p_max - p_min\<close> is taken row by row; \<open>np.mean\<close>
  divides the sum by the number of rows.
\<close>

definition tierms_step :: "real list \<Rightarrow> nat \<Rightarrow> error + (npfloat \<times> npfloat \<times> nat)" where
  "tierms_step phase mj =
     (let a = slice_to_neg mj phase;
          b = drop mj phase
      in if length a \<noteq> length b then Inl ValueError
         else
           let phases = map (\<lambda>(p, q). max p q - min p q) (zip a b);
               tie = Option.bind (np_div (sum_sq phases) (real (length phases))) np_sqrt;
               ncount = length phase - mj
           in Inr (tie, np_div 0 (sqrt (real ncount)), ncount))"

definition tierms_phase :: estimator where
  "tierms_phase phase rate taus =
     (case tau_m phase rate taus of
        Inl e \<Rightarrow> Inl e
      | Inr (data, m, taus_used) \<Rightarrow>
          (case for_each (\<lambda>mj. tierms_step phase (nat mj)) m of
             Inl e \<Rightarrow> Inl e
           | Inr rs \<Rightarrow> Inr (filtered taus_used rs)))"

definition tierms :: estimator where
  "tierms freqdata rate taus =
     (case frequency2phase freqdata rate of
        Inl e \<Rightarrow> Inl e
      | Inr phasedata \<Rightarrow> tierms_phase phasedata rate taus)"

text \<open>
  Modelled from the spec: \<open>move_nanmax\<close> and \<open>move_nanmin\<close> belong to the library
  bottleneck, which is not part of the sources. The spec describes them as the maximum
  and the minimum of the phase values over each sliding window of the given size. As
  the library documents them, the result has the length of the input, the entries
  before the first full window are \<open>nan\<close>, and a window size outside \<open>1 .. len\<close>
  raises ValueError.
\<close>

definition move_window :: "(real set \<Rightarrow> real) \<Rightarrow> real list \<Rightarrow> nat \<Rightarrow> error + npfloat list" where
  "move_window f a window =
     (if window < 1 \<or> length a < window then Inl ValueError
      else Inr (map (\<lambda>i. if i + 1 < window then None
                          else Some (f (set (take window (drop (i + 1 - window) a)))))
                  [0..<length a]))"

definition move_nanmax :: "real list \<Rightarrow> nat \<Rightarrow> error + npfloat list" where
  "move_nanmax a window = move_window Max a window"

definition move_nanmin :: "real list \<Rightarrow> nat \<Rightarrow> error + npfloat list" where
  "move_nanmin a window = move_window Min a window"

text \<open>\<open>np.nanmax\<close>: the maximum of the entries that are not \<open>nan\<close>; \<open>nan\<close> if there is none.\<close>

fun not_nan :: "npfloat list \<Rightarrow> real list" where
  "not_nan [] = []"
| "not_nan (None # xs) = not_nan xs"
| "not_nan (Some x # xs) = x # not_nan xs"

definition np_nanmax :: "npfloat list \<Rightarrow> npfloat" where
  "np_nanmax xs = (case not_nan xs of [] \<Rightarrow> None | y # ys \<Rightarrow> Some (Max (set (y # ys))))"

definition mtie_step :: "real list \<Rightarrow> nat \<Rightarrow> error + (npfloat \<times> npfloat \<times> nat)" where
  "mtie_step phase mj =
     (let win_size = mj + 1 in
      case move_nanmax phase win_size of
        Inl e \<Rightarrow> Inl e
      | Inr win_max \<Rightarrow>
          (case move_nanmin phase win_size of
             Inl e \<Rightarrow> Inl e
           | Inr win_min \<Rightarrow>
               let tie = map (\<lambda>(hi, lo). Option.bind hi (\<lambda>h. map_option (\<lambda>l. h - l) lo)) (zip win_max win_min);
                   dev = np_nanmax tie;
                   ncount = length phase - mj
               in Inr (dev, Option.bind dev (\<lambda>d. np_div d (sqrt (real ncount))), ncount)))"

definition mtie_phase :: estimator where
  "mtie_phase phase rate taus =
     (case tau_m phase rate taus of
        Inl e \<Rightarrow> Inl e
      | Inr (phase, m, taus_used) \<Rightarrow>
          (case for_each (\<lambda>mj. mtie_step phase (nat mj)) m of
             Inl e \<Rightarrow> Inl e
           | Inr rs \<Rightarrow> Inr (filtered taus_used rs)))"

definition mtie :: estimator where
  "mtie freqdata rate taus =
     (case frequency2phase freqdata rate of
        Inl e \<Rightarrow> Inl e
      | Inr phasedata \<Rightarrow> mtie_phase phasedata rate taus)"

subsection \<open>Three-cornered hat\<close>

text \<open>
  The arithmetic of arrays that may hold \<open>nan\<close>: \<open>nan\<close> propagates, and \<open>nan < 0\<close>
  is false.
\<close>

definition np_mul :: "npfloat \<Rightarrow> npfloat \<Rightarrow> npfloat" where
  "np_mul a b = Option.bind a (\<lambda>x. map_option (\<lambda>y. x * y) b)"

definition np_add :: "npfloat \<Rightarrow> npfloat \<Rightarrow> npfloat" where
  "np_add a b = Option.bind a (\<lambda>x. map_option (\<lambda>y. x + y) b)"

definition np_sub :: "npfloat \<Rightarrow> npfloat \<Rightarrow> npfloat" where
  "np_sub a b = Option.bind a (\<lambda>x. map_option (\<lambda>y. x - y) b)"

definition np_neg :: "npfloat \<Rightarrow> bool" where
  "np_neg a = (case a of None \<Rightarrow> False | Some x \<Rightarrow> x < 0)"

text \<open>\<open>var_a = 0.5 * (var_ab + var_ca - var_bc)\<close>, on arrays of one length.\<close>

definition hat_var :: "npfloat list \<Rightarrow> npfloat list \<Rightarrow> npfloat list \<Rightarrow> npfloat list" where
  "hat_var var_ab var_bc var_ca =
     map (\<lambda>(ab, bc, ca). map_option (\<lambda>v. 0.5 * v) (np_sub (np_add ab ca) bc))
       (zip var_ab (zip var_bc var_ca))"

definition three_cornered_hat_phase ::
  "real list \<Rightarrow> real list \<Rightarrow> real list \<Rightarrow> real \<Rightarrow> real list \<Rightarrow> estimator \<Rightarrow> error + (real list \<times> npfloat list)" where
  "three_cornered_hat_phase phasedata_ab phasedata_bc phasedata_ca rate taus function =
     (case function phasedata_ab rate taus of
        Inl e \<Rightarrow> Inl e
      | Inr (tau_ab, dev_ab, err_ab, ns_ab) \<Rightarrow>
     (case function phasedata_bc rate taus of
        Inl e \<Rightarrow> Inl e
      | Inr (tau_bc, dev_bc, err_bc, ns_bc) \<Rightarrow>
     (case function phasedata_ca rate taus of
        Inl e \<Rightarrow> Inl e
      | Inr (tau_ca, dev_ca, err_ca, ns_ca) \<Rightarrow>
          let var_ab = map (\<lambda>d. np_mul d d) dev_ab;
              var_bc = map (\<lambda>d. np_mul d d) dev_bc;
              var_ca = map (\<lambda>d. np_mul d d) dev_ca
          in if \<not> (length var_ab = length var_bc \<and> length var_bc = length var_ca)
             then Inl AssertionError
             else
               let var_a = hat_var var_ab var_bc var_ca;
                   dev_a = map (\<lambda>v. Option.bind v np_sqrt) var_a;
                   dev_a = map (\<lambda>(d, v). if np_neg v then Some 0 else d) (zip dev_a var_a)
               in Inr (tau_ab, dev_a))))"

subsection \<open>The implemented functions\<close>

text \<open>
  The estimators that the module lists as implemented: each statistic on fractional
  frequency data and on phase data.
\<close>

definition estimators :: "estimator list" where
  "estimators =
     [adev, adev_phase, oadev, oadev_phase, mdev, mdev_phase, tdev, tdev_phase,
      hdev, hdev_phase, ohdev, ohdev_phase, totdev, totdev_phase,
      mtie, mtie_phase, tierms, tierms_phase]"

section \<open>Properties\<close>

subsection \<open>Phase conversion\<close>

lemma cumsum_from_length: "length (cumsum_from a xs) = length xs"
  by (induction xs arbitrary: a) simp_all

lemma cumsum_from_nth:
  "i < length xs \<Longrightarrow> cumsum_from a xs ! i = a + sum_list (take (Suc i) xs)"
proof (induction xs arbitrary: a i)
  case Nil
  then show ?case by simp
next
  case (Cons x xs)
  show ?case
  proof (cases i)
    case 0
    then show ?thesis by simp
  next
    case (Suc j)
    with Cons.prems have "j < length xs" by simp
    from Cons.IH [OF this, of "a + x"] Suc show ?thesis by simp
  qed
qed

lemma cumsum_from_step:
  assumes "Suc i < length xs"
  shows "cumsum_from a xs ! Suc i = cumsum_from a xs ! i + xs ! Suc i"
proof -
  have "take (Suc (Suc i)) xs = take (Suc i) xs @ [xs ! Suc i]"
    using assms by (rule take_Suc_conv_app_nth)
  then show ?thesis
    using assms by (simp add: cumsum_from_nth)
qed

text \<open>
  Claim C4. For every frequency series and every nonzero rate, \<open>frequency2phase\<close>
  returns an array one longer than its input, whose first element is 0 and in which
  each element is its predecessor plus the frequency sample divided by the rate.
\<close>

theorem frequency2phase_integrates:
  assumes "rate \<noteq> 0"
  shows "\<exists>phase. frequency2phase freq rate = Inr phase
           \<and> length phase = length freq + 1
           \<and> phase ! 0 = 0
           \<and> (\<forall>i<length freq. phase ! (i + 1) = phase ! i + freq ! i / rate)"
proof -
  let ?phase = "0 # map (\<lambda>c. c * (1 / rate)) (cumsum freq)"
  have run: "frequency2phase freq rate = Inr ?phase"
    using assms by (simp add: frequency2phase_def)
  have len: "length ?phase = length freq + 1"
    by (simp add: cumsum_def cumsum_from_length)
  have step: "?phase ! (i + 1) = ?phase ! i + freq ! i / rate" if "i < length freq" for i
  proof (cases i)
    case 0
    with that show ?thesis
      by (simp add: cumsum_def cumsum_from_length cumsum_from_nth take_Suc_conv_app_nth)
  next
    case (Suc j)
    with that have "Suc j < length freq" by simp
    from cumsum_from_step [OF this, of 0] Suc that show ?thesis
      by (simp add: cumsum_def cumsum_from_length algebra_simps add_divide_distrib)
  qed
  from run len step show ?thesis by (intro exI [of _ ?phase]) simp
qed

theorem frequency2phase_integrates_witness:
  "frequency2phase [1, 2, 3] 2 = Inr [0, 1 / 2, 3 / 2, 3]
   \<and> (\<exists>phase. frequency2phase [1, 2, 3] 2 = Inr phase
           \<and> length phase = length [1, 2, 3 :: real] + 1
           \<and> phase ! 0 = 0
           \<and> (\<forall>i<length [1, 2, 3 :: real]. phase ! (i + 1) = phase ! i + [1, 2, 3] ! i / 2))"
proof -
  have h: "(2::real) \<noteq> 0" by simp
  have "frequency2phase [1, 2, 3] 2 = Inr [0, 1 / 2, 3 / 2, 3]"
    by (simp add: frequency2phase_def cumsum_def)
  with frequency2phase_integrates [OF h, of "[1, 2, 3]"] show ?thesis by blast
qed

subsection \<open>Tau selection\<close>

lemma tau_m_set:
  assumes "rate \<noteq> 0" and "tau_m data rate taus = Inr (d, ms, tau_used)"
  shows "set ms = {k. k \<noteq> 0 \<and> (\<exists>t\<in>set taus. 0 < t \<and> t < real (length data) / rate \<and> k = \<lfloor>t * rate\<rfloor>)}"
  using assms by (auto simp: tau_m_def np_unique_def Let_def)

lemma valid_tau_bounds:
  assumes "rate \<noteq> 0" and "0 < t" and "t < real (length data) / rate"
  shows "0 < rate" and "0 \<le> \<lfloor>t * rate\<rfloor>" and "\<lfloor>t * rate\<rfloor> < int (length data)"
proof -
  show pos: "0 < rate"
  proof (rule ccontr)
    assume "\<not> 0 < rate"
    with assms(1) have neg: "rate < 0" by simp
    then have "real (length data) / rate \<le> 0"
      by (simp add: divide_nonneg_neg)
    with assms(2,3) show False by simp
  qed
  from pos assms(2) have "0 \<le> t * rate" by simp
  then show "0 \<le> \<lfloor>t * rate\<rfloor>" by simp
  from pos assms(3) have "t * rate < real (length data)"
    by (simp add: pos_less_divide_eq)
  then show "\<lfloor>t * rate\<rfloor> < int (length data)"
    by (simp add: floor_less_iff)
qed

lemma outside_tau_floor:
  assumes "0 < rate" and "\<not> (0 < t \<and> t < real (length data) / rate)"
  shows "\<lfloor>t * rate\<rfloor> \<le> 0 \<or> int (length data) \<le> \<lfloor>t * rate\<rfloor>"
proof (cases "0 < t")
  case True
  with assms(2) have "real (length data) / rate \<le> t" by simp
  with assms(1) have "real (length data) \<le> t * rate"
    by (simp add: pos_divide_le_eq)
  then have "int (length data) \<le> \<lfloor>t * rate\<rfloor>"
    by (simp add: le_floor_iff)
  then show ?thesis ..
next
  case False
  with assms(1) have "t * rate \<le> 0"
    by (simp add: mult_le_0_iff)
  then have "\<lfloor>t * rate\<rfloor> \<le> 0"
    by (simp add: floor_le_iff)
  then show ?thesis ..
qed

text \<open>
  In exact arithmetic the selection keeps the contract of the tau selector: for a nonzero
  rate \<open>tau_m\<close> does not raise and returns m-values that are positive integers below
  the data length, strictly increasing and unique, each the floor of \<open>tau * rate\<close> for
  a requested tau inside \<open>(0, len / rate)\<close>, with \<open>tau_used[i] = m[i] / rate\<close>; a
  requested tau outside that interval contributes no m-value, and when every tau is
  outside, the selection is empty.
\<close>

lemma tau_m_selection_exact:
  assumes "rate \<noteq> 0"
  shows "\<exists>ms tau_used. tau_m data rate taus = Inr (data, ms, tau_used)
     \<and> (\<forall>m\<in>set ms. 0 < m \<and> m < int (length data))
     \<and> sorted_wrt (<) ms \<and> distinct ms
     \<and> (\<forall>m\<in>set ms. \<exists>tau\<in>set taus. 0 < tau \<and> tau < real (length data) / rate \<and> m = \<lfloor>tau * rate\<rfloor>)
     \<and> (\<forall>tau\<in>set taus. 0 < tau \<and> tau < real (length data) / rate \<and> \<lfloor>tau * rate\<rfloor> \<noteq> 0
           \<longrightarrow> \<lfloor>tau * rate\<rfloor> \<in> set ms)
     \<and> length tau_used = length ms
     \<and> (\<forall>i<length ms. tau_used ! i = real_of_int (ms ! i) / rate)
     \<and> (\<forall>tau\<in>set taus. \<not> (0 < tau \<and> tau < real (length data) / rate) \<longrightarrow> \<lfloor>tau * rate\<rfloor> \<notin> set ms)
     \<and> ((\<forall>tau\<in>set taus. \<not> (0 < tau \<and> tau < real (length data) / rate)) \<longrightarrow> ms = [] \<and> tau_used = [])"
proof -
  define ms where
    "ms = np_unique (filter (\<lambda>k. k \<noteq> 0) (map (\<lambda>t. \<lfloor>t * rate\<rfloor>)
            (filter (\<lambda>t. t < (1 / rate) * real (length data) \<and> t > 0) taus)))"
  define tau_used where "tau_used = map (\<lambda>k. real_of_int k / rate) ms"
  have run: "tau_m data rate taus = Inr (data, ms, tau_used)"
    using assms by (simp add: tau_m_def ms_def tau_used_def Let_def)
  note mem = tau_m_set [OF assms run]
  have bounds: "0 < m \<and> m < int (length data)" if "m \<in> set ms" for m
  proof -
    from that mem obtain t where t: "m \<noteq> 0" "0 < t" "t < real (length data) / rate" "m = \<lfloor>t * rate\<rfloor>"
      by auto
    from valid_tau_bounds(2,3) [OF assms t(2,3)] have "0 \<le> m" and "m < int (length data)"
      unfolding t(4) .
    with t(1) show ?thesis by simp
  qed
  have ordered: "sorted_wrt (<) ms" and dist: "distinct ms"
    by (simp_all add: ms_def np_unique_def strict_sorted_iff)
  have derived: "\<exists>tau\<in>set taus. 0 < tau \<and> tau < real (length data) / rate \<and> m = \<lfloor>tau * rate\<rfloor>"
    if "m \<in> set ms" for m
    using that mem by auto
  have complete: "\<lfloor>tau * rate\<rfloor> \<in> set ms"
    if "tau \<in> set taus" "0 < tau \<and> tau < real (length data) / rate \<and> \<lfloor>tau * rate\<rfloor> \<noteq> 0" for tau
    using that mem by auto
  have used: "tau_used ! i = real_of_int (ms ! i) / rate" if "i < length ms" for i
    using that by (simp add: tau_used_def)
  have excluded: "\<lfloor>tau * rate\<rfloor> \<notin> set ms"
    if "tau \<in> set taus" and out: "\<not> (0 < tau \<and> tau < real (length data) / rate)" for tau
  proof
    assume inside: "\<lfloor>tau * rate\<rfloor> \<in> set ms"
    then obtain t where t: "0 < t" "t < real (length data) / rate"
      using mem by auto
    from valid_tau_bounds(1) [OF assms t] have "0 < rate" .
    from outside_tau_floor [OF this out] bounds [OF inside] show False by auto
  qed
  have empty: "ms = [] \<and> tau_used = []"
    if "\<forall>tau\<in>set taus. \<not> (0 < tau \<and> tau < real (length data) / rate)"
  proof -
    from that mem have "set ms = {}" by auto
    then show ?thesis by (simp add: tau_used_def)
  qed
  have len: "length tau_used = length ms" by (simp add: tau_used_def)
  from run bounds ordered dist derived complete len used excluded empty show ?thesis
    by (intro exI [of _ ms] exI [of _ tau_used]) blast
qed

lemma tau_m_selection_exact_example:
  "tau_m [0, 1, 2, 3, 4, 5, 6, 7, 8, 9] 1 [2.5, 1, 2, -1, 10, 0.5] = Inr ([0, 1, 2, 3, 4, 5, 6, 7, 8, 9], [1, 2], [1, 2])
   \<and> (0::int) < 1 \<and> (1::int) < int (length [0, 1, 2, 3, 4, 5, 6, 7, 8, 9 :: real])
   \<and> (0::int) < 2 \<and> (2::int) < int (length [0, 1, 2, 3, 4, 5, 6, 7, 8, 9 :: real])
   \<and> sorted_wrt (<) [1, 2 :: int] \<and> distinct [1, 2 :: int]
   \<and> \<lfloor>(-1) * (1::real)\<rfloor> \<notin> set [1, 2 :: int] \<and> \<lfloor>10 * (1::real)\<rfloor> \<notin> set [1, 2 :: int]"
proof -
  have h: "(1::real) \<noteq> 0" by simp
  have run: "tau_m [0, 1, 2, 3, 4, 5, 6, 7, 8, 9] 1 [2.5, 1, 2, -1, 10, 0.5] = Inr ([0, 1, 2, 3, 4, 5, 6, 7, 8, 9], [1, 2], [1, 2])"
    by (simp add: tau_m_def np_unique_def)
  from tau_m_selection_exact [OF h, of "[0, 1, 2, 3, 4, 5, 6, 7, 8, 9]" "[2.5, 1, 2, -1, 10, 0.5]"]
  obtain ms tau_used where
    sel: "tau_m [0, 1, 2, 3, 4, 5, 6, 7, 8, 9] 1 [2.5, 1, 2, -1, 10, 0.5] = Inr ([0, 1, 2, 3, 4, 5, 6, 7, 8, 9], ms, tau_used)"
    and b: "\<forall>m\<in>set ms. 0 < m \<and> m < int (length [0, 1, 2, 3, 4, 5, 6, 7, 8, 9 :: real])"
    and s: "sorted_wrt (<) ms" "distinct ms"
    and x: "\<forall>tau\<in>set [2.5, 1, 2, -1, 10, 0.5 :: real]. \<not> (0 < tau \<and> tau < real (length [0, 1, 2, 3, 4, 5, 6, 7, 8, 9 :: real]) / 1) \<longrightarrow> \<lfloor>tau * 1\<rfloor> \<notin> set ms"
    by blast
  from sel run have ms: "ms = [1, 2]" by simp
  from x have "\<lfloor>(-1) * (1::real)\<rfloor> \<notin> set ms" "\<lfloor>10 * (1::real)\<rfloor> \<notin> set ms"
    by simp_all
  with run b s ms show ?thesis by simp
qed

lemma binary_exponent:
  assumes "2 powi e \<le> \<bar>x\<bar>" and "\<bar>x\<bar> < 2 powi (e + 1)"
  shows "\<lfloor>log 2 \<bar>x\<bar>\<rfloor> = e"
proof -
  have "(0::real) < 2 powi e" by simp
  then have pos: "0 < \<bar>x\<bar>" using assms(1) by (rule less_le_trans)
  have p0: "(2::real) powr real_of_int e = 2 powi e"
    by (simp add: powr_real_of_int')
  have "(2::real) powr (real_of_int e + 1) = 2 powr real_of_int e * 2"
    by (simp add: powr_add)
  moreover have "(2::real) powi (e + 1) = 2 powi e * 2"
    by (simp add: power_int_add)
  ultimately have p1: "(2::real) powr (real_of_int e + 1) = 2 powi (e + 1)"
    by (simp only: p0)
  from assms have "2 powr real_of_int e \<le> \<bar>x\<bar> \<and> \<bar>x\<bar> < 2 powr (real_of_int e + 1)"
    unfolding p0 p1 by simp
  with pos show ?thesis
    by (simp add: floor_log_eq_powr_iff)
qed

lemma round_binary64_at:
  assumes "2 powi e \<le> \<bar>x\<bar>" and "\<bar>x\<bar> < 2 powi (e + 1)" and "- 1022 \<le> e"
  shows "round_binary64 x = of_int (round_half_even (x / 2 powi (e - 52))) * 2 powi (e - 52)"
proof -
  have "(0::real) < 2 powi e" by simp
  then have "0 < \<bar>x\<bar>" using assms(1) by (rule less_le_trans)
  then have "x \<noteq> 0" by simp
  moreover from assms(3) have "max (- 1022) e = e" by simp
  ultimately show ?thesis
    by (simp add: round_binary64_def binary_exponent [OF assms(1,2)] Let_def)
qed

text \<open>The Python literal \<open>0.3\<close> is the double \<open>5404319552844595 / 2 ^ 54\<close>.\<close>

lemma literal_three_tenths: "round_binary64 (3 / 10) = 5404319552844595 / 18014398509481984"
  by (subst round_binary64_at [where e = "- 2"]) (simp_all add: round_half_even_def)

lemma tau_bound_three_samples: "tau_bound_binary64 10 3 = 5404319552844596 / 18014398509481984"
proof -
  have "round_binary64 (1 / 10) = 3602879701896397 / 2 ^ 55"
    by (subst round_binary64_at [where e = "- 4"]) (simp_all add: round_half_even_def)
  moreover have "round_binary64 (3602879701896397 / 2 ^ 55 * real 3) = 5404319552844596 / 18014398509481984"
    by (subst round_binary64_at [where e = "- 2"]) (simp_all add: round_half_even_def)
  ultimately show ?thesis
    by (simp only: tau_bound_binary64_def)
qed

lemma tau_floor_three_tenths: "tau_floor_binary64 10 (5404319552844595 / 18014398509481984) = 3"
proof -
  have "round_binary64 (5404319552844595 / 18014398509481984 * 10) = 3"
    by (subst round_binary64_at [where e = 1]) (simp_all add: round_half_even_def)
  then show ?thesis
    by (simp only: tau_floor_binary64_def) simp
qed

lemma m_tau_three: "m_tau_binary64 10 3 = 5404319552844595 / 18014398509481984"
proof -
  have "round_binary64 (real_of_int 3 / 10) = 5404319552844595 / 18014398509481984"
    by (subst round_binary64_at [where e = "- 2"]) (simp_all add: round_half_even_def)
  then show ?thesis
    by (simp only: m_tau_binary64_def)
qed

lemma tau_m_binary64_three_samples:
  "tau_m_binary64 [0, 1, 2] 10 [5404319552844595 / 18014398509481984]
     = Inr ([0, 1, 2], [3], [5404319552844595 / 18014398509481984])"
  by (simp add: tau_m_binary64_def tau_bound_three_samples [unfolded numeral_3_eq_3]
      tau_floor_three_tenths m_tau_three np_unique_def)

lemma tau_m_exact_three_samples:
  "tau_m [0, 1, 2] 10 [5404319552844595 / 18014398509481984]
     = Inr ([0, 1, 2], [2], [1 / 5])"
  by (simp add: tau_m_def np_unique_def)

lemma mtie_step_window_too_long: "mtie_step [0, 1, 2] 3 = Inl ValueError"
  by (simp add: mtie_step_def move_nanmax_def move_window_def)

text \<open>
  Claim C2. The m-values of \<open>tau_m\<close> are to satisfy \<open>0 < m < data_length\<close>. In double
  precision they do not: for three samples at rate 10 and the requested tau \<open>0.3\<close> the
  bound \<open>(1 / 10.0) * 3.0\<close> rounds up to \<open>0.30000000000000004\<close>, so the tau passes
  the test, \<open>0.3 * 10.0\<close> rounds up to \<open>3.0\<close>, and the selected m is 3, the data
  length (in exact arithmetic it is 2). With that m the window of \<open>mtie_phase\<close> is
  longer than the series.
\<close>

theorem tau_m_binary64_selects_data_length:
  "round_binary64 (3 / 10) = 5404319552844595 / 18014398509481984
   \<and> tau_bound_binary64 10 3 = 5404319552844596 / 18014398509481984
   \<and> tau_floor_binary64 10 (5404319552844595 / 18014398509481984) = 3
   \<and> tau_m_binary64 [0, 1, 2] 10 [5404319552844595 / 18014398509481984]
       = Inr ([0, 1, 2], [3], [5404319552844595 / 18014398509481984])
   \<and> int (length [0, 1, 2 :: real]) = 3
   \<and> tau_m [0, 1, 2] 10 [5404319552844595 / 18014398509481984] = Inr ([0, 1, 2], [2], [1 / 5])
   \<and> mtie_step [0, 1, 2] 3 = Inl ValueError"
proof -
  have "int (length [0, 1, 2 :: real]) = 3" by simp
  with literal_three_tenths tau_bound_three_samples tau_floor_three_tenths
    tau_m_binary64_three_samples tau_m_exact_three_samples mtie_step_window_too_long
  show ?thesis by (intro conjI)
qed

subsection \<open>Result filter\<close>

lemma mask_select_nths:
  "mask_select xs keep = nths xs {i. i < length keep \<and> keep ! i}"
proof (induction xs arbitrary: keep)
  case Nil
  then show ?case by (simp add: mask_select_def)
next
  case (Cons x xs)
  show ?case
  proof (cases keep)
    case Nil
    then show ?thesis by (simp add: mask_select_def)
  next
    case (Cons k ks)
    have "{j. Suc j \<in> {i. i < length (k # ks) \<and> (k # ks) ! i}} = {i. i < length ks \<and> ks ! i}"
      by auto
    with Cons.IH [of ks] Cons show ?thesis
      by (simp add: mask_select_def nths_Cons)
  qed
qed

lemma mask_select_self: "mask_select ns (map P ns) = filter P ns"
  by (induction ns) (simp_all add: mask_select_def)

lemma remove_small_ns_counts:
  "remove_small_ns taus devs errs ns = (t, d, e, ks) \<Longrightarrow> ks = filter (\<lambda>n. 1 < n) ns"
  by (auto simp: remove_small_ns_def Let_def mask_select_self)

lemma filtered_counts: "filtered taus rs = (t, d, e, ks) \<Longrightarrow> k \<in> set ks \<Longrightarrow> 1 < k"
  unfolding filtered_def by (drule remove_small_ns_counts) simp

lemma adev_phase_counts: "adev_phase data rate taus = Inr (t, d, e, ks) \<Longrightarrow> k \<in> set ks \<Longrightarrow> 1 < k"
  by (fastforce simp: adev_phase_def split: sum.splits dest: filtered_counts)

lemma oadev_phase_counts: "oadev_phase data rate taus = Inr (t, d, e, ks) \<Longrightarrow> k \<in> set ks \<Longrightarrow> 1 < k"
  by (fastforce simp: oadev_phase_def split: sum.splits dest: filtered_counts)

lemma hdev_phase_counts: "hdev_phase data rate taus = Inr (t, d, e, ks) \<Longrightarrow> k \<in> set ks \<Longrightarrow> 1 < k"
  by (fastforce simp: hdev_phase_def split: sum.splits dest: filtered_counts)

lemma ohdev_phase_counts: "ohdev_phase data rate taus = Inr (t, d, e, ks) \<Longrightarrow> k \<in> set ks \<Longrightarrow> 1 < k"
  by (fastforce simp: ohdev_phase_def split: sum.splits dest: filtered_counts)

lemma mdev_phase_counts: "mdev_phase data rate taus = Inr (t, d, e, ks) \<Longrightarrow> k \<in> set ks \<Longrightarrow> 1 < k"
  by (fastforce simp: mdev_phase_def split: sum.splits dest: filtered_counts)

lemma tdev_phase_counts: "tdev_phase data rate taus = Inr (t, d, e, ks) \<Longrightarrow> k \<in> set ks \<Longrightarrow> 1 < k"
  by (auto simp: tdev_phase_def Let_def split: sum.splits dest: mdev_phase_counts)

lemma totdev_phase_counts: "totdev_phase data rate taus = Inr (t, d, e, ks) \<Longrightarrow> k \<in> set ks \<Longrightarrow> 1 < k"
  by (fastforce simp: totdev_phase_def Let_def split: sum.splits if_splits dest: filtered_counts)

lemma tierms_phase_counts: "tierms_phase data rate taus = Inr (t, d, e, ks) \<Longrightarrow> k \<in> set ks \<Longrightarrow> 1 < k"
  by (fastforce simp: tierms_phase_def split: sum.splits dest: filtered_counts)

lemma mtie_phase_counts: "mtie_phase data rate taus = Inr (t, d, e, ks) \<Longrightarrow> k \<in> set ks \<Longrightarrow> 1 < k"
  by (fastforce simp: mtie_phase_def split: sum.splits dest: filtered_counts)

lemma estimators_counts:
  assumes "est \<in> set estimators" and "est data rate taus = Inr (t, d, e, ks)"
    and "k \<in> set ks"
  shows "1 < k"
proof -
  from assms(1) consider
      "est = adev" | "est = adev_phase" | "est = oadev" | "est = oadev_phase"
    | "est = mdev" | "est = mdev_phase" | "est = tdev" | "est = tdev_phase"
    | "est = hdev" | "est = hdev_phase" | "est = ohdev" | "est = ohdev_phase"
    | "est = totdev" | "est = totdev_phase" | "est = mtie" | "est = mtie_phase"
    | "est = tierms" | "est = tierms_phase"
    unfolding estimators_def by auto
  then show ?thesis
  proof cases
    case 1 with assms(2,3) show ?thesis
      by (auto simp: adev_def split: sum.splits dest: adev_phase_counts)
  next
    case 2 with assms(2,3) show ?thesis by (auto dest: adev_phase_counts)
  next
    case 3 with assms(2,3) show ?thesis
      by (auto simp: oadev_def split: sum.splits dest: oadev_phase_counts)
  next
    case 4 with assms(2,3) show ?thesis by (auto dest: oadev_phase_counts)
  next
    case 5 with assms(2,3) show ?thesis
      by (auto simp: mdev_def split: sum.splits dest: mdev_phase_counts)
  next
    case 6 with assms(2,3) show ?thesis by (auto dest: mdev_phase_counts)
  next
    case 7 with assms(2,3) show ?thesis
      by (auto simp: tdev_def split: sum.splits dest: tdev_phase_counts)
  next
    case 8 with assms(2,3) show ?thesis by (auto dest: tdev_phase_counts)
  next
    case 9 with assms(2,3) show ?thesis
      by (auto simp: hdev_def split: sum.splits dest: hdev_phase_counts)
  next
    case 10 with assms(2,3) show ?thesis by (auto dest: hdev_phase_counts)
  next
    case 11 with assms(2,3) show ?thesis
      by (auto simp: ohdev_def split: sum.splits dest: ohdev_phase_counts)
  next
    case 12 with assms(2,3) show ?thesis by (auto dest: ohdev_phase_counts)
  next
    case 13 with assms(2,3) show ?thesis
      by (auto simp: totdev_def split: sum.splits dest: totdev_phase_counts)
  next
    case 14 with assms(2,3) show ?thesis by (auto dest: totdev_phase_counts)
  next
    case 15 with assms(2,3) show ?thesis
      by (auto simp: mtie_def split: sum.splits dest: mtie_phase_counts)
  next
    case 16 with assms(2,3) show ?thesis by (auto dest: mtie_phase_counts)
  next
    case 17 with assms(2,3) show ?thesis
      by (auto simp: tierms_def split: sum.splits dest: tierms_phase_counts)
  next
    case 18 with assms(2,3) show ?thesis by (auto dest: tierms_phase_counts)
  qed
qed

text \<open>
  Claim C3. \<open>remove_small_ns\<close> returns the subsequence of each of the four arrays at
  the indices where \<open>n > 1\<close>, in order (\<open>nths\<close> selects the elements at a set of
  indices); and every sample count returned by every estimator is greater than 1.
\<close>

theorem remove_small_ns_subsequence:
  "remove_small_ns taus devs errs ns =
     (nths taus {i. i < length ns \<and> 1 < ns ! i}, nths devs {i. i < length ns \<and> 1 < ns ! i},
      nths errs {i. i < length ns \<and> 1 < ns ! i}, nths ns {i. i < length ns \<and> 1 < ns ! i})
   \<and> (\<forall>est\<in>set estimators. \<forall>data rate req t d e ks.
         est data rate req = Inr (t, d, e, ks) \<longrightarrow> (\<forall>k\<in>set ks. 1 < k))"
proof
  have "{i. i < length (map (\<lambda>n. 1 < n) ns) \<and> map (\<lambda>n. 1 < n) ns ! i} = {i. i < length ns \<and> 1 < ns ! i}"
    by auto
  then show "remove_small_ns taus devs errs ns =
     (nths taus {i. i < length ns \<and> 1 < ns ! i}, nths devs {i. i < length ns \<and> 1 < ns ! i},
      nths errs {i. i < length ns \<and> 1 < ns ! i}, nths ns {i. i < length ns \<and> 1 < ns ! i})"
    by (simp add: remove_small_ns_def mask_select_nths)
next
  show "\<forall>est\<in>set estimators. \<forall>data rate req t d e ks.
         est data rate req = Inr (t, d, e, ks) \<longrightarrow> (\<forall>k\<in>set ks. 1 < k)"
    using estimators_counts by blast
qed

lemmas eval_defs = slice_step_def second_diff_def third_diff_def sum_sq_def np_div_def Let_def
  filtered_def remove_small_ns_def mask_select_def upt_conv_Cons

lemma tau_m_ramp4:
  "tau_m [0, 1, 2, 3, 4, 5, 6, 7, 8, 9] 1 [1, 2, 3, 4] =
     Inr ([0, 1, 2, 3, 4, 5, 6, 7, 8, 9], [1, 2, 3, 4], [1, 2, 3, 4])"
  by (simp add: tau_m_def np_unique_def)

lemma adev_phase_ramp4:
  "adev_phase [0, 1, 2, 3, 4, 5, 6, 7, 8, 9] 1 [1, 2, 3, 4] =
     Inr ([1, 2, 3], [Some 0, Some 0, Some 0], [Some 0, Some 0, Some 0], [8, 3, 2])"
  by (simp add: adev_phase_def tau_m_ramp4 calc_adev_phase_def eval_defs)

theorem remove_small_ns_subsequence_witness:
  "remove_small_ns [1, 2, 3, 4 :: real] [Some 0, Some 0, Some 0, Some 0 :: npfloat]
       [Some 0, Some 0, Some 0, Some 0 :: npfloat] [8, 3, 2, 1]
     = ([1, 2, 3], [Some 0, Some 0, Some 0], [Some 0, Some 0, Some 0], [8, 3, 2])
   \<and> nths [8, 3, 2, 1 :: nat] {i. i < length [8, 3, 2, 1 :: nat] \<and> 1 < [8, 3, 2, 1 :: nat] ! i} = [8, 3, 2]
   \<and> adev_phase \<in> set estimators
   \<and> adev_phase [0, 1, 2, 3, 4, 5, 6, 7, 8, 9] 1 [1, 2, 3, 4] =
       Inr ([1, 2, 3], [Some 0, Some 0, Some 0], [Some 0, Some 0, Some 0], [8, 3, 2])
   \<and> (1::nat) < 8 \<and> (1::nat) < 3 \<and> (1::nat) < 2"
proof -
  note sub = remove_small_ns_subsequence [of "[1, 2, 3, 4 :: real]"
      "[Some 0, Some 0, Some 0, Some 0 :: npfloat]" "[Some 0, Some 0, Some 0, Some 0 :: npfloat]"
      "[8, 3, 2, 1]"]
  have ev: "remove_small_ns [1, 2, 3, 4 :: real] [Some 0, Some 0, Some 0, Some 0 :: npfloat]
       [Some 0, Some 0, Some 0, Some 0 :: npfloat] [8, 3, 2, 1]
     = ([1, 2, 3], [Some 0, Some 0, Some 0], [Some 0, Some 0, Some 0], [8, 3, 2])"
    by (simp add: remove_small_ns_def mask_select_def)
  from sub have "remove_small_ns [1, 2, 3, 4 :: real] [Some 0, Some 0, Some 0, Some 0 :: npfloat]
       [Some 0, Some 0, Some 0, Some 0 :: npfloat] [8, 3, 2, 1]
     = (nths [1, 2, 3, 4 :: real] {i. i < length [8, 3, 2, 1 :: nat] \<and> 1 < [8, 3, 2, 1 :: nat] ! i},
        nths [Some 0, Some 0, Some 0, Some 0 :: npfloat] {i. i < length [8, 3, 2, 1 :: nat] \<and> 1 < [8, 3, 2, 1 :: nat] ! i},
        nths [Some 0, Some 0, Some 0, Some 0 :: npfloat] {i. i < length [8, 3, 2, 1 :: nat] \<and> 1 < [8, 3, 2, 1 :: nat] ! i},
        nths [8, 3, 2, 1 :: nat] {i. i < length [8, 3, 2, 1 :: nat] \<and> 1 < [8, 3, 2, 1 :: nat] ! i})"
    by (rule conjunct1)
  from trans [OF sym [OF this] ev]
  have sel: "nths [8, 3, 2, 1 :: nat] {i. i < length [8, 3, 2, 1 :: nat] \<and> 1 < [8, 3, 2, 1 :: nat] ! i} = [8, 3, 2]"
    by (simp only: prod.inject)
  have mem: "adev_phase \<in> set estimators"
    by (simp add: estimators_def)
  from sub have "\<forall>est\<in>set estimators. \<forall>data rate req t d e ks.
         est data rate req = Inr (t, d, e, ks) \<longrightarrow> (\<forall>k\<in>set ks. 1 < k)"
    by (rule conjunct2)
  from bspec [OF this mem] adev_phase_ramp4 have cnt: "\<forall>k\<in>set [8, 3, 2 :: nat]. 1 < k"
    by blast
  from cnt have "(1::nat) < 8" and "(1::nat) < 3" and "(1::nat) < 2"
    by simp_all
  with ev sel mem adev_phase_ramp4 show ?thesis
    by (intro conjI)
qed

subsection \<open>Estimators on frequency data\<close>

text \<open>
  Claim C1. For every frequency series, every rate above 0 and every tau list, the
  conversion to phase succeeds and each estimator on frequency data returns what its
  \<open>_phase\<close> variant returns on the converted series.
\<close>

theorem frequency_wrappers_delegate:
  assumes "0 < rate"
  shows "\<exists>phase. frequency2phase f rate = Inr phase
     \<and> adev f rate taus = adev_phase phase rate taus
     \<and> oadev f rate taus = oadev_phase phase rate taus
     \<and> mdev f rate taus = mdev_phase phase rate taus
     \<and> tdev f rate taus = tdev_phase phase rate taus
     \<and> hdev f rate taus = hdev_phase phase rate taus
     \<and> ohdev f rate taus = ohdev_phase phase rate taus
     \<and> totdev f rate taus = totdev_phase phase rate taus
     \<and> tierms f rate taus = tierms_phase phase rate taus
     \<and> mtie f rate taus = mtie_phase phase rate taus"
proof -
  from assms obtain phase where p: "frequency2phase f rate = Inr phase"
    by (auto simp: frequency2phase_def)
  then show ?thesis
    by (simp add: adev_def oadev_def mdev_def tdev_def hdev_def ohdev_def totdev_def tierms_def mtie_def)
qed

theorem frequency_wrappers_delegate_witness:
  "(0::real) < 2 \<and> frequency2phase [1, 2, 3] 2 = Inr [0, 1 / 2, 3 / 2, 3]
     \<and> adev [1, 2, 3] 2 [1] = adev_phase [0, 1 / 2, 3 / 2, 3] 2 [1]
     \<and> oadev [1, 2, 3] 2 [1] = oadev_phase [0, 1 / 2, 3 / 2, 3] 2 [1]
     \<and> mdev [1, 2, 3] 2 [1] = mdev_phase [0, 1 / 2, 3 / 2, 3] 2 [1]
     \<and> tdev [1, 2, 3] 2 [1] = tdev_phase [0, 1 / 2, 3 / 2, 3] 2 [1]
     \<and> hdev [1, 2, 3] 2 [1] = hdev_phase [0, 1 / 2, 3 / 2, 3] 2 [1]
     \<and> ohdev [1, 2, 3] 2 [1] = ohdev_phase [0, 1 / 2, 3 / 2, 3] 2 [1]
     \<and> totdev [1, 2, 3] 2 [1] = totdev_phase [0, 1 / 2, 3 / 2, 3] 2 [1]
     \<and> tierms [1, 2, 3] 2 [1] = tierms_phase [0, 1 / 2, 3 / 2, 3] 2 [1]
     \<and> mtie [1, 2, 3] 2 [1] = mtie_phase [0, 1 / 2, 3 / 2, 3] 2 [1]"
proof -
  have h: "(0::real) < 2" by simp
  have ev: "frequency2phase [1, 2, 3] 2 = Inr [0, 1 / 2, 3 / 2, 3]"
    by (simp add: frequency2phase_def cumsum_def)
  from frequency_wrappers_delegate [OF h, of "[1, 2, 3]" "[1]"] obtain phase where
    conv: "frequency2phase [1, 2, 3] 2 = Inr phase"
    and del: "adev [1, 2, 3] 2 [1] = adev_phase phase 2 [1]"
      "oadev [1, 2, 3] 2 [1] = oadev_phase phase 2 [1]"
      "mdev [1, 2, 3] 2 [1] = mdev_phase phase 2 [1]"
      "tdev [1, 2, 3] 2 [1] = tdev_phase phase 2 [1]"
      "hdev [1, 2, 3] 2 [1] = hdev_phase phase 2 [1]"
      "ohdev [1, 2, 3] 2 [1] = ohdev_phase phase 2 [1]"
      "totdev [1, 2, 3] 2 [1] = totdev_phase phase 2 [1]"
      "tierms [1, 2, 3] 2 [1] = tierms_phase phase 2 [1]"
      "mtie [1, 2, 3] 2 [1] = mtie_phase phase 2 [1]"
    by blast
  from conv ev have "phase = [0, 1 / 2, 3 / 2, 3]"
    by (simp only: sum.inject)
  with h ev del show ?thesis
    by (simp only: simp_thms)
qed

subsection \<open>Scenarios\<close>

lemma tau_m_ramp:
  "tau_m [0, 1, 2, 3, 4, 5, 6, 7, 8, 9] 1 [1, 2, 3] =
     Inr ([0, 1, 2, 3, 4, 5, 6, 7, 8, 9], [1, 2, 3], [1, 2, 3])"
  by (simp add: tau_m_def np_unique_def)

lemma adev_phase_ramp:
  "adev_phase [0, 1, 2, 3, 4, 5, 6, 7, 8, 9] 1 [1, 2, 3] =
     Inr ([1, 2, 3], [Some 0, Some 0, Some 0], [Some 0, Some 0, Some 0], [8, 3, 2])"
  by (simp add: adev_phase_def tau_m_ramp calc_adev_phase_def eval_defs)

lemma oadev_phase_ramp:
  "oadev_phase [0, 1, 2, 3, 4, 5, 6, 7, 8, 9] 1 [1, 2, 3] =
     Inr ([1, 2, 3], [Some 0, Some 0, Some 0], [Some 0, Some 0, Some 0], [8, 6, 4])"
  by (simp add: oadev_phase_def tau_m_ramp calc_adev_phase_def eval_defs)

lemma hdev_phase_ramp:
  "hdev_phase [0, 1, 2, 3, 4, 5, 6, 7, 8, 9] 1 [1, 2, 3] =
     Inr ([1, 2], [Some 0, Some 0], [Some 0, Some 0], [7, 2])"
  by (simp add: hdev_phase_def tau_m_ramp calc_hdev_phase_def eval_defs)

text \<open>
  Claim C7. For the phase series \<open>0, 1, \<dots>, 9\<close> with rate 1 and the taus 1, 2, 3 the
  tau selection gives m = 1, 2, 3, and \<open>adev_phase\<close>, \<open>oadev_phase\<close> and
  \<open>hdev_phase\<close> return the deviation 0 at every tau that passes the filter (for the
  Hadamard deviation tau = 3 has one sample and is removed).
\<close>

theorem linear_ramp_scenario:
  "tau_m [0, 1, 2, 3, 4, 5, 6, 7, 8, 9] 1 [1, 2, 3] =
     Inr ([0, 1, 2, 3, 4, 5, 6, 7, 8, 9], [1, 2, 3], [1, 2, 3])
   \<and> adev_phase [0, 1, 2, 3, 4, 5, 6, 7, 8, 9] 1 [1, 2, 3] =
       Inr ([1, 2, 3], [Some 0, Some 0, Some 0], [Some 0, Some 0, Some 0], [8, 3, 2])
   \<and> oadev_phase [0, 1, 2, 3, 4, 5, 6, 7, 8, 9] 1 [1, 2, 3] =
       Inr ([1, 2, 3], [Some 0, Some 0, Some 0], [Some 0, Some 0, Some 0], [8, 6, 4])
   \<and> hdev_phase [0, 1, 2, 3, 4, 5, 6, 7, 8, 9] 1 [1, 2, 3] =
       Inr ([1, 2], [Some 0, Some 0], [Some 0, Some 0], [7, 2])"
  by (intro conjI tau_m_ramp adev_phase_ramp oadev_phase_ramp hdev_phase_ramp)

lemma tau_m_mtie_example:
  "tau_m [0, 0.1, -0.1, 0.3, 0] 1 [1] = Inr ([0, 0.1, -0.1, 0.3, 0], [1], [1])"
  by (simp add: tau_m_def np_unique_def)

lemma move_nanmax_example:
  "move_nanmax [0, 0.1, -0.1, 0.3, 0] 2 = Inr [None, Some 0.1, Some 0.1, Some 0.3, Some 0.3]"
  by (simp add: move_nanmax_def move_window_def upt_conv_Cons)

lemma move_nanmin_example:
  "move_nanmin [0, 0.1, -0.1, 0.3, 0] 2 = Inr [None, Some 0, Some (-0.1), Some (-0.1), Some 0]"
  by (simp add: move_nanmin_def move_window_def upt_conv_Cons)

lemma mtie_phase_example:
  "mtie_phase [0, 0.1, -0.1, 0.3, 0] 1 [1] = Inr ([1], [Some 0.4], [Some 0.2], [4])"
  by (simp add: mtie_phase_def tau_m_mtie_example mtie_step_def move_nanmax_def move_nanmin_def
      move_window_def np_nanmax_def eval_defs)

text \<open>
  Claim C9. For the phase series \<open>0, 0.1, -0.1, 0.3, 0\<close> with rate 1 and tau 1 the
  windows of size 2 have the maxima \<open>0.1, 0.1, 0.3, 0.3\<close> and the minima
  \<open>0, -0.1, -0.1, 0\<close>, hence the ranges \<open>0.1, 0.2, 0.4, 0.3\<close>, and \<open>mtie_phase\<close>
  reports the deviation 0.4 with the sample count 4 (and the error \<open>0.4 / sqrt 4\<close>).
\<close>

theorem mtie_scenario:
  "move_nanmax [0, 0.1, -0.1, 0.3, 0] 2 = Inr [None, Some 0.1, Some 0.1, Some 0.3, Some 0.3]
   \<and> move_nanmin [0, 0.1, -0.1, 0.3, 0] 2 = Inr [None, Some 0, Some (-0.1), Some (-0.1), Some 0]
   \<and> mtie_phase [0, 0.1, -0.1, 0.3, 0] 1 [1] = Inr ([1], [Some 0.4], [Some 0.2], [4])"
  by (intro conjI move_nanmax_example move_nanmin_example mtie_phase_example)

subsection \<open>Three-cornered hat\<close>

lemma hat_var_length:
  "length vab = length vbc \<Longrightarrow> length vbc = length vca \<Longrightarrow> length (hat_var vab vbc vca) = length vab"
  by (simp add: hat_var_def)

lemma hat_var_nth:
  assumes "i < length dab" and "length dab = length dbc" and "length dbc = length dca"
    and "dab ! i = Some a" and "dbc ! i = Some b" and "dca ! i = Some c"
  shows "hat_var (map (\<lambda>d. np_mul d d) dab) (map (\<lambda>d. np_mul d d) dbc) (map (\<lambda>d. np_mul d d) dca) ! i
           = Some (0.5 * (a * a + c * c - b * b))"
  using assms by (simp add: hat_var_def np_mul_def np_add_def np_sub_def)

lemma hat_clamp_nth:
  assumes "i < length var_a" and "var_a ! i = Some v"
  shows "map (\<lambda>(d, v). if np_neg v then Some 0 else d)
            (zip (map (\<lambda>v. Option.bind v np_sqrt) var_a) var_a) ! i
           = Some (if v < 0 then 0 else sqrt v)"
  using assms by (simp add: np_neg_def np_sqrt_def)

text \<open>
  Claim C5. \<open>three_cornered_hat_phase\<close> does not raise when its three estimator runs
  return arrays of one length; at every index where the three deviations are numbers,
  with \<open>var_a = 0.5 (dev_ab\<^sup>2 + dev_ca\<^sup>2 - dev_bc\<^sup>2)\<close>, the result is the number 0
  (not \<open>nan\<close>) where \<open>var_a < 0\<close> and \<open>sqrt var_a\<close> where \<open>var_a \<ge> 0\<close>.
\<close>

theorem three_cornered_hat_clamp:
  assumes ab: "est phasedata_ab rate taus = Inr (tau_ab, dev_ab, err_ab, ns_ab)"
    and bc: "est phasedata_bc rate taus = Inr (tau_bc, dev_bc, err_bc, ns_bc)"
    and ca: "est phasedata_ca rate taus = Inr (tau_ca, dev_ca, err_ca, ns_ca)"
    and len: "length dev_ab = length dev_bc" "length dev_bc = length dev_ca"
  shows "\<exists>dev_a. three_cornered_hat_phase phasedata_ab phasedata_bc phasedata_ca rate taus est
                   = Inr (tau_ab, dev_a)
           \<and> length dev_a = length dev_ab
           \<and> (\<forall>i a b c. i < length dev_a \<and> dev_ab ! i = Some a \<and> dev_bc ! i = Some b \<and> dev_ca ! i = Some c
                 \<longrightarrow> (0.5 * (a * a + c * c - b * b) < 0 \<longrightarrow> dev_a ! i = Some 0)
                   \<and> (0.5 * (a * a + c * c - b * b) \<ge> 0
                        \<longrightarrow> dev_a ! i = Some (sqrt (0.5 * (a * a + c * c - b * b)))))"
proof -
  define var_a where
    "var_a = hat_var (map (\<lambda>d. np_mul d d) dev_ab) (map (\<lambda>d. np_mul d d) dev_bc) (map (\<lambda>d. np_mul d d) dev_ca)"
  define dev_a where
    "dev_a = map (\<lambda>(d, v). if np_neg v then Some 0 else d) (zip (map (\<lambda>v. Option.bind v np_sqrt) var_a) var_a)"
  have run: "three_cornered_hat_phase phasedata_ab phasedata_bc phasedata_ca rate taus est
               = Inr (tau_ab, dev_a)"
    using ab bc ca len by (simp add: three_cornered_hat_phase_def Let_def var_a_def dev_a_def)
  have lv: "length var_a = length dev_ab"
    using len by (simp add: var_a_def hat_var_length)
  then have la: "length dev_a = length dev_ab"
    by (simp add: dev_a_def)
  have clamp: "(0.5 * (a * a + c * c - b * b) < 0 \<longrightarrow> dev_a ! i = Some 0)
             \<and> (0.5 * (a * a + c * c - b * b) \<ge> 0 \<longrightarrow> dev_a ! i = Some (sqrt (0.5 * (a * a + c * c - b * b))))"
    if "i < length dev_a" "dev_ab ! i = Some a" "dev_bc ! i = Some b" "dev_ca ! i = Some c" for i a b c
  proof -
    from that la have i: "i < length dev_ab" by simp
    from hat_var_nth [OF i len that(2,3,4)]
    have v: "var_a ! i = Some (0.5 * (a * a + c * c - b * b))"
      by (simp only: var_a_def)
    from i lv have "i < length var_a" by simp
    from hat_clamp_nth [OF this v]
    have "dev_a ! i = Some (if 0.5 * (a * a + c * c - b * b) < 0 then 0 else sqrt (0.5 * (a * a + c * c - b * b)))"
      by (simp only: dev_a_def)
    then show ?thesis by simp
  qed
  from run la clamp show ?thesis
    by (intro exI [of _ dev_a]) blast
qed

lemma tau_m_six:
  "length data = 6 \<Longrightarrow> tau_m data 1 [1] = Inr (data, [1], [1])"
  by (simp add: tau_m_def np_unique_def)

lemma adev_phase_ramp6:
  "adev_phase [0, 1, 2, 3, 4, 5] 1 [1] = Inr ([1], [Some 0], [Some 0], [4])"
  by (simp add: adev_phase_def tau_m_six calc_adev_phase_def eval_defs)

lemma adev_phase_step6:
  "adev_phase [0, 0, 2, 2, 2, 2] 1 [1] = Inr ([1], [Some 1], [Some (1 / 2)], [4])"
  by (simp add: adev_phase_def tau_m_six calc_adev_phase_def eval_defs)

theorem three_cornered_hat_clamp_witness:
  "adev_phase [0, 1, 2, 3, 4, 5] 1 [1] = Inr ([1], [Some 0], [Some 0], [4])
   \<and> adev_phase [0, 0, 2, 2, 2, 2] 1 [1] = Inr ([1], [Some 1], [Some (1 / 2)], [4])
   \<and> three_cornered_hat_phase [0, 1, 2, 3, 4, 5] [0, 0, 2, 2, 2, 2] [0, 1, 2, 3, 4, 5] 1 [1] adev_phase
       = Inr ([1], [Some 0])
   \<and> three_cornered_hat_phase [0, 0, 2, 2, 2, 2] [0, 1, 2, 3, 4, 5] [0, 1, 2, 3, 4, 5] 1 [1] adev_phase
       = Inr ([1], [Some (sqrt (1 / 2))])"
proof -
  have len: "length [Some 0 :: npfloat] = length [Some 1 :: npfloat]"
    "length [Some 1 :: npfloat] = length [Some 0 :: npfloat]"
    "length [Some 0 :: npfloat] = length [Some 0 :: npfloat]"
    by simp_all
  from three_cornered_hat_clamp [where est = adev_phase and phasedata_ab = "[0, 1, 2, 3, 4, 5]"
      and phasedata_bc = "[0, 0, 2, 2, 2, 2]" and phasedata_ca = "[0, 1, 2, 3, 4, 5]" and rate = 1
      and taus = "[1]", OF adev_phase_ramp6 adev_phase_step6 adev_phase_ramp6 len(1,2)]
  obtain dev_a where run: "three_cornered_hat_phase [0, 1, 2, 3, 4, 5] [0, 0, 2, 2, 2, 2] [0, 1, 2, 3, 4, 5] 1 [1] adev_phase
       = Inr ([1], dev_a)"
    and l: "length dev_a = length [Some 0 :: npfloat]"
    and c: "\<forall>i a b c. i < length dev_a \<and> [Some 0 :: npfloat] ! i = Some a \<and> [Some 1 :: npfloat] ! i = Some b
                 \<and> [Some 0 :: npfloat] ! i = Some c
                 \<longrightarrow> (0.5 * (a * a + c * c - b * b) < 0 \<longrightarrow> dev_a ! i = Some 0)
                   \<and> (0.5 * (a * a + c * c - b * b) \<ge> 0
                        \<longrightarrow> dev_a ! i = Some (sqrt (0.5 * (a * a + c * c - b * b))))"
    by blast
  from l have "0 < length dev_a" by simp
  with c [rule_format, of 0 0 1 0] have "dev_a ! 0 = Some 0" by simp
  with l have neg: "dev_a = [Some 0]"
    by (cases dev_a) simp_all
  from three_cornered_hat_clamp [where est = adev_phase and phasedata_ab = "[0, 0, 2, 2, 2, 2]"
      and phasedata_bc = "[0, 1, 2, 3, 4, 5]" and phasedata_ca = "[0, 1, 2, 3, 4, 5]" and rate = 1
      and taus = "[1]", OF adev_phase_step6 adev_phase_ramp6 adev_phase_ramp6 len(2,3)]
  obtain dev_p where runp: "three_cornered_hat_phase [0, 0, 2, 2, 2, 2] [0, 1, 2, 3, 4, 5] [0, 1, 2, 3, 4, 5] 1 [1] adev_phase
       = Inr ([1], dev_p)"
    and lp: "length dev_p = length [Some 1 :: npfloat]"
    and cp: "\<forall>i a b c. i < length dev_p \<and> [Some 1 :: npfloat] ! i = Some a \<and> [Some 0 :: npfloat] ! i = Some b
                 \<and> [Some 0 :: npfloat] ! i = Some c
                 \<longrightarrow> (0.5 * (a * a + c * c - b * b) < 0 \<longrightarrow> dev_p ! i = Some 0)
                   \<and> (0.5 * (a * a + c * c - b * b) \<ge> 0
                        \<longrightarrow> dev_p ! i = Some (sqrt (0.5 * (a * a + c * c - b * b))))"
    by blast
  from lp have "0 < length dev_p" by simp
  with cp [rule_format, of 0 1 0 0] have "dev_p ! 0 = Some (sqrt (1 / 2))" by simp
  with lp have pos: "dev_p = [Some (sqrt (1 / 2))]"
    by (cases dev_p) simp_all
  from run runp neg pos adev_phase_ramp6 adev_phase_step6 show ?thesis
    by (simp only: simp_thms)
qed

lemma mask_select_length:
  "length xs = length keep \<Longrightarrow> length (mask_select xs keep) = length (filter (\<lambda>b. b) keep)"
  by (induction xs keep rule: list_induct2) (simp_all add: mask_select_def)

lemma for_each_length: "for_each f xs = Inr ys \<Longrightarrow> length ys = length xs"
  by (induction xs arbitrary: ys) (auto split: sum.splits)

lemma tau_m_lengths: "tau_m data rate taus = Inr (d, ms, taus_used) \<Longrightarrow> length taus_used = length ms"
  by (auto simp: tau_m_def Let_def split: if_splits)

lemma filtered_parallel:
  assumes "length taus_used = length rs" and "filtered taus_used rs = (t, d, e, ks)"
  shows "length d = length t \<and> length e = length t \<and> length ks = length t"
  using assms by (auto simp: filtered_def remove_small_ns_def Let_def mask_select_length)

lemma looped_parallel:
  assumes "tau_m data rate taus = Inr (d', ms, taus_used)" and "for_each f ms = Inr rs"
    and "filtered taus_used rs = (t, d, e, ks)"
  shows "length d = length t \<and> length e = length t \<and> length ks = length t"
proof -
  from tau_m_lengths [OF assms(1)] for_each_length [OF assms(2)]
  have "length taus_used = length rs" by simp
  from filtered_parallel [OF this assms(3)] show ?thesis .
qed

lemma adev_phase_parallel:
  "adev_phase data rate taus = Inr (t, d, e, ks) \<Longrightarrow> length d = length t \<and> length e = length t \<and> length ks = length t"
  by (fastforce simp: adev_phase_def split: sum.splits dest: looped_parallel)

lemma oadev_phase_parallel:
  "oadev_phase data rate taus = Inr (t, d, e, ks) \<Longrightarrow> length d = length t \<and> length e = length t \<and> length ks = length t"
  by (fastforce simp: oadev_phase_def split: sum.splits dest: looped_parallel)

lemma hdev_phase_parallel:
  "hdev_phase data rate taus = Inr (t, d, e, ks) \<Longrightarrow> length d = length t \<and> length e = length t \<and> length ks = length t"
  by (fastforce simp: hdev_phase_def split: sum.splits dest: looped_parallel)

lemma ohdev_phase_parallel:
  "ohdev_phase data rate taus = Inr (t, d, e, ks) \<Longrightarrow> length d = length t \<and> length e = length t \<and> length ks = length t"
  by (fastforce simp: ohdev_phase_def split: sum.splits dest: looped_parallel)

lemma tierms_phase_parallel:
  "tierms_phase data rate taus = Inr (t, d, e, ks) \<Longrightarrow> length d = length t \<and> length e = length t \<and> length ks = length t"
  by (fastforce simp: tierms_phase_def split: sum.splits dest: looped_parallel)

lemma mtie_phase_parallel:
  "mtie_phase data rate taus = Inr (t, d, e, ks) \<Longrightarrow> length d = length t \<and> length e = length t \<and> length ks = length t"
  by (fastforce simp: mtie_phase_def split: sum.splits dest: looped_parallel)

lemma mdev_phase_parallel:
  assumes "mdev_phase data rate taus = Inr (t, d, e, ks)"
  shows "length d = length t \<and> length e = length t \<and> length ks = length t"
proof -
  from assms obtain d' ms taus_used where
    sel: "tau_m data rate taus = Inr (d', ms, taus_used)"
    and res: "filtered taus_used (map (\<lambda>(m, tau). mdev_step d' (nat m) tau) (zip ms taus_used)) = (t, d, e, ks)"
    by (auto simp: mdev_phase_def split: sum.splits)
  from tau_m_lengths [OF sel]
  have "length taus_used = length (map (\<lambda>(m, tau). mdev_step d' (nat m) tau) (zip ms taus_used))"
    by simp
  from filtered_parallel [OF this res] show ?thesis .
qed

lemma tdev_phase_parallel:
  assumes "tdev_phase data rate taus = Inr (t, d, e, ks)"
  shows "length d = length t \<and> length e = length t \<and> length ks = length t"
proof -
  from assms obtain md mde where
    m: "mdev_phase data rate taus = Inr (t, md, mde, ks)"
    and d: "d = map (\<lambda>(t, d). map_option (\<lambda>d. t * d / sqrt 3) d) (zip t md)"
    and e: "e = map (\<lambda>(d, n). Option.bind d (\<lambda>d. np_div d (sqrt (real n)))) (zip d ks)"
    by (auto simp: tdev_phase_def Let_def split: sum.splits)
  from mdev_phase_parallel [OF m] d e show ?thesis by simp
qed

lemma totdev_phase_parallel:
  assumes "totdev_phase data rate taus = Inr (t, d, e, ks)"
  shows "length d = length t \<and> length e = length t \<and> length ks = length t"
proof -
  from assms obtain d' ms taus_used x n mid where
    sel: "tau_m data rate taus = Inr (d', ms, taus_used)"
    and res: "filtered taus_used (map (totdev_step x rate n mid) ms) = (t, d, e, ks)"
    by (auto simp: totdev_phase_def Let_def split: sum.splits if_splits)
  from tau_m_lengths [OF sel]
  have "length taus_used = length (map (totdev_step x rate n mid) ms)"
    by simp
  from filtered_parallel [OF this res] show ?thesis .
qed

lemma estimators_parallel:
  assumes "est \<in> set estimators" and "est data rate taus = Inr (t, d, e, ks)"
  shows "length d = length t \<and> length e = length t \<and> length ks = length t"
proof -
  from assms(1) consider
      "est = adev" | "est = adev_phase" | "est = oadev" | "est = oadev_phase"
    | "est = mdev" | "est = mdev_phase" | "est = tdev" | "est = tdev_phase"
    | "est = hdev" | "est = hdev_phase" | "est = ohdev" | "est = ohdev_phase"
    | "est = totdev" | "est = totdev_phase" | "est = mtie" | "est = mtie_phase"
    | "est = tierms" | "est = tierms_phase"
    unfolding estimators_def by auto
  then show ?thesis
  proof cases
    case 1 with assms(2) show ?thesis
      by (auto simp: adev_def split: sum.splits dest: adev_phase_parallel)
  next
    case 2 with assms(2) show ?thesis by (auto dest: adev_phase_parallel)
  next
    case 3 with assms(2) show ?thesis
      by (auto simp: oadev_def split: sum.splits dest: oadev_phase_parallel)
  next
    case 4 with assms(2) show ?thesis by (auto dest: oadev_phase_parallel)
  next
    case 5 with assms(2) show ?thesis
      by (auto simp: mdev_def split: sum.splits dest: mdev_phase_parallel)
  next
    case 6 with assms(2) show ?thesis by (auto dest: mdev_phase_parallel)
  next
    case 7 with assms(2) show ?thesis
      by (auto simp: tdev_def split: sum.splits dest: tdev_phase_parallel)
  next
    case 8 with assms(2) show ?thesis by (auto dest: tdev_phase_parallel)
  next
    case 9 with assms(2) show ?thesis
      by (auto simp: hdev_def split: sum.splits dest: hdev_phase_parallel)
  next
    case 10 with assms(2) show ?thesis by (auto dest: hdev_phase_parallel)
  next
    case 11 with assms(2) show ?thesis
      by (auto simp: ohdev_def split: sum.splits dest: ohdev_phase_parallel)
  next
    case 12 with assms(2) show ?thesis by (auto dest: ohdev_phase_parallel)
  next
    case 13 with assms(2) show ?thesis
      by (auto simp: totdev_def split: sum.splits dest: totdev_phase_parallel)
  next
    case 14 with assms(2) show ?thesis by (auto dest: totdev_phase_parallel)
  next
    case 15 with assms(2) show ?thesis
      by (auto simp: mtie_def split: sum.splits dest: mtie_phase_parallel)
  next
    case 16 with assms(2) show ?thesis by (auto dest: mtie_phase_parallel)
  next
    case 17 with assms(2) show ?thesis
      by (auto simp: tierms_def split: sum.splits dest: tierms_phase_parallel)
  next
    case 18 with assms(2) show ?thesis by (auto dest: tierms_phase_parallel)
  qed
qed

lemma hat_entry:
  assumes "i < length dab" and "length dab = length dbc" and "length dbc = length dca"
  shows "map (\<lambda>(d, v). if np_neg v then Some 0 else d)
           (zip (map (\<lambda>v. Option.bind v np_sqrt)
                   (hat_var (map (\<lambda>d. np_mul d d) dab) (map (\<lambda>d. np_mul d d) dbc) (map (\<lambda>d. np_mul d d) dca)))
                (hat_var (map (\<lambda>d. np_mul d d) dab) (map (\<lambda>d. np_mul d d) dbc) (map (\<lambda>d. np_mul d d) dca))) ! i
         = (case (dab ! i, dbc ! i, dca ! i) of
              (Some a, Some b, Some c) \<Rightarrow>
                Some (if 0.5 * (a * a + c * c - b * b) < 0 then 0 else sqrt (0.5 * (a * a + c * c - b * b)))
            | _ \<Rightarrow> None)"
proof -
  let ?var = "hat_var (map (\<lambda>d. np_mul d d) dab) (map (\<lambda>d. np_mul d d) dbc) (map (\<lambda>d. np_mul d d) dca)"
  from assms have lv: "i < length ?var"
    by (simp add: hat_var_length)
  have v: "?var ! i = (case (dab ! i, dbc ! i, dca ! i) of
              (Some a, Some b, Some c) \<Rightarrow> Some (0.5 * (a * a + c * c - b * b))
            | _ \<Rightarrow> None)"
    using assms
    by (cases "dab ! i"; cases "dbc ! i"; cases "dca ! i")
      (simp_all add: hat_var_def np_mul_def np_add_def np_sub_def)
  from lv have "map (\<lambda>(d, v). if np_neg v then Some 0 else d)
           (zip (map (\<lambda>v. Option.bind v np_sqrt) ?var) ?var) ! i
      = (if np_neg (?var ! i) then Some 0 else Option.bind (?var ! i) np_sqrt)"
    by simp
  also have "\<dots> = (case (dab ! i, dbc ! i, dca ! i) of
              (Some a, Some b, Some c) \<Rightarrow>
                Some (if 0.5 * (a * a + c * c - b * b) < 0 then 0 else sqrt (0.5 * (a * a + c * c - b * b)))
            | _ \<Rightarrow> None)"
    unfolding v
    by (cases "dab ! i"; cases "dbc ! i"; cases "dca ! i")
      (simp_all add: np_neg_def np_sqrt_def)
  finally show ?thesis .
qed

text \<open>
  Claim C10. A successful call of \<open>three_cornered_hat_phase\<close> returns a pair. Its first
  component is the tau array of the estimator run on the A-B data. Its second component
  is the array of the combined deviations of clock A: it has the length of the three
  deviation arrays (and of the tau array, for each estimator of the module), and its entry
  at each index is computed from the three deviations there, 0 for a negative
  \<open>0.5 (dev_ab\<^sup>2 + dev_ca\<^sup>2 - dev_bc\<^sup>2)\<close>, its square root otherwise, and \<open>nan\<close> if one
  of the three is \<open>nan\<close>. The result type has no component for errors or sample counts.
\<close>

theorem three_cornered_hat_returns_pair:
  assumes "three_cornered_hat_phase phasedata_ab phasedata_bc phasedata_ca rate taus est = Inr (taus_out, dev_a)"
  shows "\<exists>dev_ab err_ab ns_ab tau_bc dev_bc err_bc ns_bc tau_ca dev_ca err_ca ns_ca.
           est phasedata_ab rate taus = Inr (taus_out, dev_ab, err_ab, ns_ab)
         \<and> est phasedata_bc rate taus = Inr (tau_bc, dev_bc, err_bc, ns_bc)
         \<and> est phasedata_ca rate taus = Inr (tau_ca, dev_ca, err_ca, ns_ca)
         \<and> length dev_a = length dev_ab \<and> length dev_bc = length dev_ab \<and> length dev_ca = length dev_ab
         \<and> (\<forall>i<length dev_a. dev_a ! i =
               (case (dev_ab ! i, dev_bc ! i, dev_ca ! i) of
                  (Some a, Some b, Some c) \<Rightarrow>
                    Some (if 0.5 * (a * a + c * c - b * b) < 0 then 0
                          else sqrt (0.5 * (a * a + c * c - b * b)))
                | _ \<Rightarrow> None))
         \<and> (est \<in> set estimators \<longrightarrow> length dev_a = length taus_out)"
proof -
  from assms obtain dev_ab err_ab ns_ab tau_bc dev_bc err_bc ns_bc tau_ca dev_ca err_ca ns_ca where
    ab: "est phasedata_ab rate taus = Inr (taus_out, dev_ab, err_ab, ns_ab)"
    and bc: "est phasedata_bc rate taus = Inr (tau_bc, dev_bc, err_bc, ns_bc)"
    and ca: "est phasedata_ca rate taus = Inr (tau_ca, dev_ca, err_ca, ns_ca)"
    and l1: "length dev_ab = length dev_bc" and l2: "length dev_bc = length dev_ca"
    and res: "dev_a = map (\<lambda>(d, v). if np_neg v then Some 0 else d)
           (zip (map (\<lambda>v. Option.bind v np_sqrt)
                   (hat_var (map (\<lambda>d. np_mul d d) dev_ab) (map (\<lambda>d. np_mul d d) dev_bc) (map (\<lambda>d. np_mul d d) dev_ca)))
                (hat_var (map (\<lambda>d. np_mul d d) dev_ab) (map (\<lambda>d. np_mul d d) dev_bc) (map (\<lambda>d. np_mul d d) dev_ca)))"
    by (auto simp: three_cornered_hat_phase_def Let_def split: sum.splits if_splits)
  from l1 l2 have len: "length dev_a = length dev_ab"
    unfolding res by (simp add: hat_var_length)
  have entry: "dev_a ! i =
               (case (dev_ab ! i, dev_bc ! i, dev_ca ! i) of
                  (Some a, Some b, Some c) \<Rightarrow>
                    Some (if 0.5 * (a * a + c * c - b * b) < 0 then 0
                          else sqrt (0.5 * (a * a + c * c - b * b)))
                | _ \<Rightarrow> None)" if "i < length dev_a" for i
  proof -
    from that len have "i < length dev_ab" by simp
    from hat_entry [OF this l1 l2] show ?thesis unfolding res .
  qed
  have par: "length dev_a = length taus_out" if "est \<in> set estimators"
    using estimators_parallel [OF that ab] len by simp
  from l1 l2 have l3: "length dev_bc = length dev_ab" and l4: "length dev_ca = length dev_ab"
    by simp_all
  from ab bc ca len l3 l4 entry par show ?thesis
    by (intro exI conjI allI impI) assumption+
qed

lemma hat_example_positive:
  "three_cornered_hat_phase [0, 0, 2, 2, 2, 2] [0, 1, 2, 3, 4, 5] [0, 1, 2, 3, 4, 5] 1 [1] adev_phase
     = Inr ([1], [Some (sqrt (1 / 2))])"
  by (simp add: three_cornered_hat_phase_def adev_phase_ramp6 adev_phase_step6 hat_var_def
      np_mul_def np_add_def np_sub_def np_neg_def np_sqrt_def)

theorem three_cornered_hat_returns_pair_witness:
  "three_cornered_hat_phase [0, 0, 2, 2, 2, 2] [0, 1, 2, 3, 4, 5] [0, 1, 2, 3, 4, 5] 1 [1] adev_phase
     = Inr ([1], [Some (sqrt (1 / 2))])
   \<and> adev_phase \<in> set estimators
   \<and> adev_phase [0, 0, 2, 2, 2, 2] 1 [1] = Inr ([1], [Some 1], [Some (1 / 2)], [4])
   \<and> adev_phase [0, 1, 2, 3, 4, 5] 1 [1] = Inr ([1], [Some 0], [Some 0], [4])
   \<and> [Some (sqrt (1 / 2))] ! 0 =
       Some (if 0.5 * (1 * 1 + 0 * 0 - 0 * 0) < (0::real) then 0 else sqrt (0.5 * (1 * 1 + 0 * 0 - 0 * 0)))
   \<and> length [Some (sqrt (1 / 2)) :: npfloat] = length [1 :: real]"
proof -
  have mem: "adev_phase \<in> set estimators"
    by (simp add: estimators_def)
  from three_cornered_hat_returns_pair [OF hat_example_positive]
  obtain dev_ab err_ab ns_ab tau_bc dev_bc err_bc ns_bc tau_ca dev_ca err_ca ns_ca where
    ab: "adev_phase [0, 0, 2, 2, 2, 2] 1 [1] = Inr ([1], dev_ab, err_ab, ns_ab)"
    and bc: "adev_phase [0, 1, 2, 3, 4, 5] 1 [1] = Inr (tau_bc, dev_bc, err_bc, ns_bc)"
    and ca: "adev_phase [0, 1, 2, 3, 4, 5] 1 [1] = Inr (tau_ca, dev_ca, err_ca, ns_ca)"
    and entry: "\<forall>i<length [Some (sqrt (1 / 2)) :: npfloat]. [Some (sqrt (1 / 2))] ! i =
               (case (dev_ab ! i, dev_bc ! i, dev_ca ! i) of
                  (Some a, Some b, Some c) \<Rightarrow>
                    Some (if 0.5 * (a * a + c * c - b * b) < 0 then 0
                          else sqrt (0.5 * (a * a + c * c - b * b)))
                | _ \<Rightarrow> None)"
    and par: "adev_phase \<in> set estimators \<longrightarrow> length [Some (sqrt (1 / 2)) :: npfloat] = length [1 :: real]"
    by (elim exE conjE)
  from ab adev_phase_step6 have dab: "dev_ab = [Some 1]" by simp
  from bc adev_phase_ramp6 have dbc: "dev_bc = [Some 0]" by simp
  from ca adev_phase_ramp6 have dca: "dev_ca = [Some 0]" by simp
  have "(0::nat) < length [Some (sqrt (1 / 2)) :: npfloat]" by simp
  from entry [rule_format, OF this]
  have e0: "[Some (sqrt (1 / 2))] ! 0 =
       Some (if 0.5 * (1 * 1 + 0 * 0 - 0 * 0) < (0::real) then 0 else sqrt (0.5 * (1 * 1 + 0 * 0 - 0 * 0)))"
    unfolding dab dbc dca by (simp only: nth_Cons_0 prod.case option.case)
  from par mem have len: "length [Some (sqrt (1 / 2)) :: npfloat] = length [1 :: real]"
    by (rule mp)
  from hat_example_positive mem adev_phase_step6 adev_phase_ramp6 e0 len show ?thesis
    by (intro conjI)
qed

subsection \<open>Sample counts\<close>

lemma slice_step_length:
  "length (slice_step start step xs) = (length xs - start + step - 1) div step"
  by (simp add: slice_step_def)

lemma clamp_count_mono:
  "(a::nat) \<le> b \<Longrightarrow> (if a = 0 then 1 else a) \<le> (if b = 0 then 1 else b)"
  by auto

lemma strided_count2_antitone:
  assumes "0 < m1" and "m1 \<le> (m2::nat)"
  shows "(N - 2 * m2 + m2 - 1) div m2 \<le> (N - 2 * m1 + m1 - 1) div m1"
proof (cases "N \<le> 2 * m2")
  case True
  with assms have "(N - 2 * m2 + m2 - 1) div m2 = 0" by simp
  then show ?thesis by simp
next
  case False
  with assms have "N - 2 * m2 + m2 - 1 \<le> N - 2 * m1 + m1 - 1" by linarith
  then have "(N - 2 * m2 + m2 - 1) div m2 \<le> (N - 2 * m1 + m1 - 1) div m2"
    by (rule div_le_mono)
  also from assms have "\<dots> \<le> (N - 2 * m1 + m1 - 1) div m1"
    by (rule div_le_mono2)
  finally show ?thesis .
qed

lemma clamp_max: "(if c = 0 then 1 else c) = max 1 (c::nat)"
  by auto

lemma min3_last:
  assumes "(c::nat) \<le> b" and "b \<le> a"
  shows "min a (min b c) = c"
  using assms by simp

lemma calc_adev_phase_count:
  assumes "0 < stride"
  shows "\<exists>dev err. calc_adev_phase data rate mj stride =
           Inr (dev, err, max 1 ((length data - 2 * mj + stride - 1) div stride))"
proof -
  have "(length data - 2 * mj + stride - 1) div stride \<le> (length data - mj + stride - 1) div stride"
    by (rule div_le_mono) simp
  moreover have "(length data - mj + stride - 1) div stride \<le> (length data + stride - 1) div stride"
    by (rule div_le_mono) simp
  ultimately have m: "min ((length data + stride - 1) div stride)
      (min ((length data - mj + stride - 1) div stride) ((length data - 2 * mj + stride - 1) div stride))
      = (length data - 2 * mj + stride - 1) div stride"
    by (rule min3_last)
  from assms have s: "stride \<noteq> 0" by simp
  show ?thesis
    apply (simp only: calc_adev_phase_def Let_def slice_step_length mult_1 diff_zero m s if_False clamp_max)
    apply (intro exI)
    apply (rule refl)
    done
qed

lemma min4_last:
  assumes "(d::nat) \<le> c" and "c \<le> b" and "b \<le> a"
  shows "min a (min b (min c d)) = d"
  using assms by simp

lemma calc_hdev_phase_count:
  assumes "0 < stride" and "rate \<noteq> 0"
  shows "\<exists>dev err. calc_hdev_phase data rate mj stride =
           Inr (dev, err, max 1 ((length data - 3 * mj + stride - 1) div stride))"
proof -
  have "(length data - 3 * mj + stride - 1) div stride \<le> (length data - 2 * mj + stride - 1) div stride"
    by (rule div_le_mono) simp
  moreover have "(length data - 2 * mj + stride - 1) div stride \<le> (length data - mj + stride - 1) div stride"
    by (rule div_le_mono) simp
  moreover have "(length data - mj + stride - 1) div stride \<le> (length data + stride - 1) div stride"
    by (rule div_le_mono) simp
  ultimately have m: "min ((length data + stride - 1) div stride)
      (min ((length data - mj + stride - 1) div stride)
        (min ((length data - 2 * mj + stride - 1) div stride) ((length data - 3 * mj + stride - 1) div stride)))
      = (length data - 3 * mj + stride - 1) div stride"
    by (rule min4_last)
  from assms have s: "stride \<noteq> 0" by simp
  show ?thesis
    apply (simp only: calc_hdev_phase_def Let_def slice_step_length mult_1 diff_zero m s assms(2) if_False clamp_max)
    apply (intro exI)
    apply (rule refl)
    done
qed

lemma strided_count3_antitone:
  assumes "0 < m1" and "m1 \<le> (m2::nat)"
  shows "(N - 3 * m2 + m2 - 1) div m2 \<le> (N - 3 * m1 + m1 - 1) div m1"
proof (cases "N \<le> 3 * m2")
  case True
  with assms have "(N - 3 * m2 + m2 - 1) div m2 = 0" by simp
  then show ?thesis by simp
next
  case False
  with assms have "N - 3 * m2 + m2 - 1 \<le> N - 3 * m1 + m1 - 1" by linarith
  then have "(N - 3 * m2 + m2 - 1) div m2 \<le> (N - 3 * m1 + m1 - 1) div m2"
    by (rule div_le_mono)
  also from assms have "\<dots> \<le> (N - 3 * m1 + m1 - 1) div m1"
    by (rule div_le_mono2)
  finally show ?thesis .
qed

lemma max1_mono: "(a::nat) \<le> b \<Longrightarrow> max 1 a \<le> max 1 b"
  by simp

lemma adev_count_antitone:
  assumes "0 < m1" and "m1 \<le> m2"
    and c1: "calc_adev_phase data rate m1 m1 = Inr (d1, e1, n1)"
    and c2: "calc_adev_phase data rate m2 m2 = Inr (d2, e2, n2)"
  shows "n2 \<le> n1"
proof -
  from assms(1,2) have pos2: "0 < m2" by simp
  from calc_adev_phase_count [OF assms(1), of data rate m1]
  have n1: "n1 = max 1 ((length data - 2 * m1 + m1 - 1) div m1)"
    unfolding c1 by blast
  from calc_adev_phase_count [OF pos2, of data rate m2]
  have n2: "n2 = max 1 ((length data - 2 * m2 + m2 - 1) div m2)"
    unfolding c2 by blast
  from max1_mono [OF strided_count2_antitone [OF assms(1,2), of "length data"]]
  show ?thesis unfolding n1 n2 .
qed

lemma oadev_count_antitone:
  assumes "m1 \<le> m2"
    and c1: "calc_adev_phase data rate m1 1 = Inr (d1, e1, n1)"
    and c2: "calc_adev_phase data rate m2 1 = Inr (d2, e2, n2)"
  shows "n2 \<le> n1"
proof -
  have one: "0 < (1::nat)" by simp
  from calc_adev_phase_count [OF one, of data rate m1]
  have n1: "n1 = max 1 ((length data - 2 * m1 + 1 - 1) div 1)"
    unfolding c1 by blast
  from calc_adev_phase_count [OF one, of data rate m2]
  have n2: "n2 = max 1 ((length data - 2 * m2 + 1 - 1) div 1)"
    unfolding c2 by blast
  from assms(1) have "(length data - 2 * m2 + 1 - 1) div 1 \<le> (length data - 2 * m1 + 1 - 1) div 1"
    by simp
  from max1_mono [OF this] show ?thesis unfolding n1 n2 .
qed

lemma calc_hdev_phase_rate: "calc_hdev_phase data rate mj stride = Inr r \<Longrightarrow> rate \<noteq> 0"
  by (auto simp: calc_hdev_phase_def)

lemma hdev_count_antitone:
  assumes "0 < m1" and "m1 \<le> m2"
    and c1: "calc_hdev_phase data rate m1 m1 = Inr (d1, e1, n1)"
    and c2: "calc_hdev_phase data rate m2 m2 = Inr (d2, e2, n2)"
  shows "n2 \<le> n1"
proof -
  from assms(1,2) have pos2: "0 < m2" by simp
  note r = calc_hdev_phase_rate [OF c1]
  from calc_hdev_phase_count [OF assms(1) r, of data m1]
  have n1: "n1 = max 1 ((length data - 3 * m1 + m1 - 1) div m1)"
    unfolding c1 by blast
  from calc_hdev_phase_count [OF pos2 r, of data m2]
  have n2: "n2 = max 1 ((length data - 3 * m2 + m2 - 1) div m2)"
    unfolding c2 by blast
  from max1_mono [OF strided_count3_antitone [OF assms(1,2), of "length data"]]
  show ?thesis unfolding n1 n2 .
qed

lemma ohdev_count_antitone:
  assumes "m1 \<le> m2"
    and c1: "calc_hdev_phase data rate m1 1 = Inr (d1, e1, n1)"
    and c2: "calc_hdev_phase data rate m2 1 = Inr (d2, e2, n2)"
  shows "n2 \<le> n1"
proof -
  have one: "0 < (1::nat)" by simp
  note r = calc_hdev_phase_rate [OF c1]
  from calc_hdev_phase_count [OF one r, of data m1]
  have n1: "n1 = max 1 ((length data - 3 * m1 + 1 - 1) div 1)"
    unfolding c1 by blast
  from calc_hdev_phase_count [OF one r, of data m2]
  have n2: "n2 = max 1 ((length data - 3 * m2 + 1 - 1) div 1)"
    unfolding c2 by blast
  from assms(1) have "(length data - 3 * m2 + 1 - 1) div 1 \<le> (length data - 3 * m1 + 1 - 1) div 1"
    by simp
  from max1_mono [OF this] show ?thesis unfolding n1 n2 .
qed

lemma for_each_nth:
  "for_each f xs = Inr ys \<Longrightarrow> i < length xs \<Longrightarrow> f (xs ! i) = Inr (ys ! i)"
proof (induction xs arbitrary: ys i)
  case Nil
  then show ?case by simp
next
  case (Cons x xs)
  from Cons.prems(1) obtain y ys' where
    y: "f x = Inr y" and rest: "for_each f xs = Inr ys'" and ys: "ys = y # ys'"
    by (auto split: sum.splits)
  show ?case
  proof (cases i)
    case 0
    with y ys show ?thesis by simp
  next
    case (Suc j)
    with Cons.prems(2) have "j < length xs" by simp
    from Cons.IH [OF rest this] Suc ys show ?thesis by simp
  qed
qed

lemma tau_m_sorted_pos:
  assumes "tau_m data rate taus = Inr (d, ms, taus_used)"
  shows "sorted_wrt (<) ms" and "\<forall>m\<in>set ms. 0 < m"
proof -
  from assms have r: "rate \<noteq> 0"
    by (auto simp: tau_m_def split: if_splits)
  from assms r show "sorted_wrt (<) ms"
    by (auto simp: tau_m_def Let_def np_unique_def strict_sorted_iff)
  show "\<forall>m\<in>set ms. 0 < m"
  proof
    fix m assume "m \<in> set ms"
    with tau_m_set [OF r assms] obtain t where
      t: "m \<noteq> 0" "0 < t" "t < real (length data) / rate" "m = \<lfloor>t * rate\<rfloor>"
      by auto
    from valid_tau_bounds(2) [OF r t(2,3)] have "0 \<le> m" unfolding t(4) .
    with t(1) show "0 < m" by simp
  qed
qed

lemma loop_counts_sorted:
  assumes sel: "tau_m data rate taus = Inr (d', ms, taus_used)"
    and run: "for_each (\<lambda>mj. g (nat mj)) ms = Inr rs"
    and anti: "\<And>m1 m2 x1 y1 n1 x2 y2 n2. 0 < m1 \<Longrightarrow> m1 \<le> m2 \<Longrightarrow> g m1 = Inr (x1, y1, n1)
                 \<Longrightarrow> g m2 = Inr (x2, y2, n2) \<Longrightarrow> n2 \<le> (n1::nat)"
    and res: "filtered taus_used rs = (t, d, e, ks)"
  shows "sorted_wrt (\<ge>) ks"
proof -
  note ord = tau_m_sorted_pos [OF sel]
  have len: "length rs = length ms"
    using run by (rule for_each_length)
  have "sorted_wrt (\<ge>) (map (snd \<circ> snd) rs)"
    unfolding sorted_wrt_iff_nth_less
  proof (intro allI impI)
    fix i j assume ij: "i < j" and j: "j < length (map (snd \<circ> snd) rs)"
    from ij j len have i': "i < length ms" and j': "j < length ms" by simp_all
    from ord(1) ij j' have lt: "ms ! i < ms ! j"
      by (simp add: sorted_wrt_iff_nth_less)
    from ord(2) i' have pos: "0 < ms ! i" by simp
    obtain x1 y1 n1 where r1: "rs ! i = (x1, y1, n1)" by (cases "rs ! i") auto
    obtain x2 y2 n2 where r2: "rs ! j = (x2, y2, n2)" by (cases "rs ! j") auto
    from for_each_nth [OF run i'] r1 have g1: "g (nat (ms ! i)) = Inr (x1, y1, n1)" by simp
    from for_each_nth [OF run j'] r2 have g2: "g (nat (ms ! j)) = Inr (x2, y2, n2)" by simp
    from pos have p: "0 < nat (ms ! i)" by simp
    from lt have l: "nat (ms ! i) \<le> nat (ms ! j)" by simp
    from anti [OF p l g1 g2] have "n2 \<le> n1" .
    with r1 r2 ij j len show "map (snd \<circ> snd) rs ! j \<le> map (snd \<circ> snd) rs ! i"
      by simp
  qed
  then have "sorted_wrt (\<ge>) (filter (\<lambda>n. 1 < n) (map (snd \<circ> snd) rs))"
    by (rule sorted_wrt_filter)
  moreover from res have "ks = filter (\<lambda>n. 1 < n) (map (snd \<circ> snd) rs)"
    unfolding filtered_def by (rule remove_small_ns_counts)
  ultimately show ?thesis by simp
qed

lemma adev_phase_counts_sorted:
  assumes "adev_phase data rate taus = Inr (t, d, e, ks)"
  shows "sorted_wrt (\<ge>) ks"
proof -
  from assms obtain d' ms taus_used rs where
    sel: "tau_m data rate taus = Inr (d', ms, taus_used)"
    and run: "for_each (\<lambda>mj. calc_adev_phase d' rate (nat mj) (nat mj)) ms = Inr rs"
    and res: "filtered taus_used rs = (t, d, e, ks)"
    by (auto simp: adev_phase_def split: sum.splits)
  from sel run _ res show ?thesis
    by (rule loop_counts_sorted [where g = "\<lambda>m. calc_adev_phase d' rate m m"])
      (rule adev_count_antitone)
qed

lemma oadev_phase_counts_sorted:
  assumes "oadev_phase data rate taus = Inr (t, d, e, ks)"
  shows "sorted_wrt (\<ge>) ks"
proof -
  from assms obtain d' ms taus_used rs where
    sel: "tau_m data rate taus = Inr (d', ms, taus_used)"
    and run: "for_each (\<lambda>mj. calc_adev_phase d' rate (nat mj) 1) ms = Inr rs"
    and res: "filtered taus_used rs = (t, d, e, ks)"
    by (auto simp: oadev_phase_def split: sum.splits)
  from sel run _ res show ?thesis
    by (rule loop_counts_sorted [where g = "\<lambda>m. calc_adev_phase d' rate m 1"])
      (rule oadev_count_antitone)
qed

lemma hdev_phase_counts_sorted:
  assumes "hdev_phase data rate taus = Inr (t, d, e, ks)"
  shows "sorted_wrt (\<ge>) ks"
proof -
  from assms obtain d' ms taus_used rs where
    sel: "tau_m data rate taus = Inr (d', ms, taus_used)"
    and run: "for_each (\<lambda>mj. calc_hdev_phase d' rate (nat mj) (nat mj)) ms = Inr rs"
    and res: "filtered taus_used rs = (t, d, e, ks)"
    by (auto simp: hdev_phase_def split: sum.splits)
  from sel run _ res show ?thesis
    by (rule loop_counts_sorted [where g = "\<lambda>m. calc_hdev_phase d' rate m m"])
      (rule hdev_count_antitone)
qed

lemma ohdev_phase_counts_sorted:
  assumes "ohdev_phase data rate taus = Inr (t, d, e, ks)"
  shows "sorted_wrt (\<ge>) ks"
proof -
  from assms obtain d' ms taus_used rs where
    sel: "tau_m data rate taus = Inr (d', ms, taus_used)"
    and run: "for_each (\<lambda>mj. calc_hdev_phase d' rate (nat mj) 1) ms = Inr rs"
    and res: "filtered taus_used rs = (t, d, e, ks)"
    by (auto simp: ohdev_phase_def split: sum.splits)
  from sel run _ res show ?thesis
    by (rule loop_counts_sorted [where g = "\<lambda>m. calc_hdev_phase d' rate m 1"])
      (rule ohdev_count_antitone)
qed

text \<open>
  Claim C8. For a fixed phase series the sample count of ADEV, OADEV, HDEV and OHDEV does
  not increase with the averaging factor: the loop bodies return, for \<open>0 < m1 \<le> m2\<close>,
  counts with \<open>n2 \<le> n1\<close> (\<open>calc_hdev_phase\<close> raises for rate 0), and the counts
  that the four estimators report, which are in the order of increasing m, form a
  non-increasing list.
\<close>

theorem sample_count_nonincreasing:
  "(0 < m1 \<and> m1 \<le> m2 \<longrightarrow>
      (\<exists>d1 e1 n1 d2 e2 n2. calc_adev_phase data rate m1 m1 = Inr (d1, e1, n1)
          \<and> calc_adev_phase data rate m2 m2 = Inr (d2, e2, n2) \<and> n2 \<le> n1)
    \<and> (\<exists>d1 e1 n1 d2 e2 n2. calc_adev_phase data rate m1 1 = Inr (d1, e1, n1)
          \<and> calc_adev_phase data rate m2 1 = Inr (d2, e2, n2) \<and> n2 \<le> n1)
    \<and> (rate \<noteq> 0 \<longrightarrow>
          (\<exists>d1 e1 n1 d2 e2 n2. calc_hdev_phase data rate m1 m1 = Inr (d1, e1, n1)
              \<and> calc_hdev_phase data rate m2 m2 = Inr (d2, e2, n2) \<and> n2 \<le> n1)
        \<and> (\<exists>d1 e1 n1 d2 e2 n2. calc_hdev_phase data rate m1 1 = Inr (d1, e1, n1)
              \<and> calc_hdev_phase data rate m2 1 = Inr (d2, e2, n2) \<and> n2 \<le> n1)))
   \<and> (\<forall>t d e ks. adev_phase data rate taus = Inr (t, d, e, ks) \<longrightarrow> sorted_wrt (\<ge>) ks)
   \<and> (\<forall>t d e ks. oadev_phase data rate taus = Inr (t, d, e, ks) \<longrightarrow> sorted_wrt (\<ge>) ks)
   \<and> (\<forall>t d e ks. hdev_phase data rate taus = Inr (t, d, e, ks) \<longrightarrow> sorted_wrt (\<ge>) ks)
   \<and> (\<forall>t d e ks. ohdev_phase data rate taus = Inr (t, d, e, ks) \<longrightarrow> sorted_wrt (\<ge>) ks)"
proof (intro conjI impI allI)
  assume m: "0 < m1 \<and> m1 \<le> m2"
  then have p1: "0 < m1" and le: "m1 \<le> m2" and p2: "0 < m2" by simp_all
  have one: "0 < (1::nat)" by simp
  from calc_adev_phase_count [OF p1, of data rate m1] obtain d1 e1 n1 where
    a1: "calc_adev_phase data rate m1 m1 = Inr (d1, e1, n1)" by blast
  from calc_adev_phase_count [OF p2, of data rate m2] obtain d2 e2 n2 where
    a2: "calc_adev_phase data rate m2 m2 = Inr (d2, e2, n2)" by blast
  from adev_count_antitone [OF p1 le a1 a2] a1 a2
  show "\<exists>d1 e1 n1 d2 e2 n2. calc_adev_phase data rate m1 m1 = Inr (d1, e1, n1)
          \<and> calc_adev_phase data rate m2 m2 = Inr (d2, e2, n2) \<and> n2 \<le> n1"
    by blast
  from calc_adev_phase_count [OF one, of data rate m1] obtain d1 e1 n1 where
    o1: "calc_adev_phase data rate m1 1 = Inr (d1, e1, n1)" by blast
  from calc_adev_phase_count [OF one, of data rate m2] obtain d2 e2 n2 where
    o2: "calc_adev_phase data rate m2 1 = Inr (d2, e2, n2)" by blast
  from oadev_count_antitone [OF le o1 o2] o1 o2
  show "\<exists>d1 e1 n1 d2 e2 n2. calc_adev_phase data rate m1 1 = Inr (d1, e1, n1)
          \<and> calc_adev_phase data rate m2 1 = Inr (d2, e2, n2) \<and> n2 \<le> n1"
    by blast
  assume r: "rate \<noteq> 0"
  from calc_hdev_phase_count [OF p1 r, of data m1] obtain d1 e1 n1 where
    h1: "calc_hdev_phase data rate m1 m1 = Inr (d1, e1, n1)" by blast
  from calc_hdev_phase_count [OF p2 r, of data m2] obtain d2 e2 n2 where
    h2: "calc_hdev_phase data rate m2 m2 = Inr (d2, e2, n2)" by blast
  from hdev_count_antitone [OF p1 le h1 h2] h1 h2
  show "\<exists>d1 e1 n1 d2 e2 n2. calc_hdev_phase data rate m1 m1 = Inr (d1, e1, n1)
          \<and> calc_hdev_phase data rate m2 m2 = Inr (d2, e2, n2) \<and> n2 \<le> n1"
    by blast
  from calc_hdev_phase_count [OF one r, of data m1] obtain d1 e1 n1 where
    q1: "calc_hdev_phase data rate m1 1 = Inr (d1, e1, n1)" by blast
  from calc_hdev_phase_count [OF one r, of data m2] obtain d2 e2 n2 where
    q2: "calc_hdev_phase data rate m2 1 = Inr (d2, e2, n2)" by blast
  from ohdev_count_antitone [OF le q1 q2] q1 q2
  show "\<exists>d1 e1 n1 d2 e2 n2. calc_hdev_phase data rate m1 1 = Inr (d1, e1, n1)
          \<and> calc_hdev_phase data rate m2 1 = Inr (d2, e2, n2) \<and> n2 \<le> n1"
    by blast
next
  fix t d e ks assume "adev_phase data rate taus = Inr (t, d, e, ks)"
  then show "sorted_wrt (\<ge>) ks" by (rule adev_phase_counts_sorted)
next
  fix t d e ks assume "oadev_phase data rate taus = Inr (t, d, e, ks)"
  then show "sorted_wrt (\<ge>) ks" by (rule oadev_phase_counts_sorted)
next
  fix t d e ks assume "hdev_phase data rate taus = Inr (t, d, e, ks)"
  then show "sorted_wrt (\<ge>) ks" by (rule hdev_phase_counts_sorted)
next
  fix t d e ks assume "ohdev_phase data rate taus = Inr (t, d, e, ks)"
  then show "sorted_wrt (\<ge>) ks" by (rule ohdev_phase_counts_sorted)
qed

lemma calc_adev_ramp_1:
  "calc_adev_phase [0, 1, 2, 3, 4, 5, 6, 7, 8, 9] 1 (Suc 0) (Suc 0) = Inr (Some 0, Some 0, 8)"
  by (simp add: calc_adev_phase_def eval_defs)

lemma calc_adev_ramp_2:
  "calc_adev_phase [0, 1, 2, 3, 4, 5, 6, 7, 8, 9] 1 2 2 = Inr (Some 0, Some 0, 3)"
  by (simp add: calc_adev_phase_def eval_defs)

theorem sample_count_nonincreasing_witness:
  "(0::nat) < 1 \<and> (1::nat) \<le> 2
   \<and> calc_adev_phase [0, 1, 2, 3, 4, 5, 6, 7, 8, 9] 1 1 1 = Inr (Some 0, Some 0, 8)
   \<and> calc_adev_phase [0, 1, 2, 3, 4, 5, 6, 7, 8, 9] 1 2 2 = Inr (Some 0, Some 0, 3)
   \<and> (3::nat) \<le> 8
   \<and> adev_phase [0, 1, 2, 3, 4, 5, 6, 7, 8, 9] 1 [1, 2, 3] =
       Inr ([1, 2, 3], [Some 0, Some 0, Some 0], [Some 0, Some 0, Some 0], [8, 3, 2])
   \<and> sorted_wrt (\<ge>) [8, 3, 2 :: nat]"
proof -
  note inst = sample_count_nonincreasing [of 1 2 "[0, 1, 2, 3, 4, 5, 6, 7, 8, 9]" 1 "[1, 2, 3]"]
  have h: "(0::nat) < 1 \<and> (1::nat) \<le> 2" by simp
  have c1: "calc_adev_phase [0, 1, 2, 3, 4, 5, 6, 7, 8, 9] 1 1 1 = Inr (Some 0, Some 0, 8)"
    using calc_adev_ramp_1 by simp
  from inst have "0 < (1::nat) \<and> (1::nat) \<le> 2 \<longrightarrow>
      (\<exists>d1 e1 n1 d2 e2 n2. calc_adev_phase [0, 1, 2, 3, 4, 5, 6, 7, 8, 9] 1 1 1 = Inr (d1, e1, n1)
          \<and> calc_adev_phase [0, 1, 2, 3, 4, 5, 6, 7, 8, 9] 1 2 2 = Inr (d2, e2, n2) \<and> n2 \<le> n1)
    \<and> (\<exists>d1 e1 n1 d2 e2 n2. calc_adev_phase [0, 1, 2, 3, 4, 5, 6, 7, 8, 9] 1 1 1 = Inr (d1, e1, n1)
          \<and> calc_adev_phase [0, 1, 2, 3, 4, 5, 6, 7, 8, 9] 1 2 1 = Inr (d2, e2, n2) \<and> n2 \<le> n1)
    \<and> ((1::real) \<noteq> 0 \<longrightarrow>
          (\<exists>d1 e1 n1 d2 e2 n2. calc_hdev_phase [0, 1, 2, 3, 4, 5, 6, 7, 8, 9] 1 1 1 = Inr (d1, e1, n1)
              \<and> calc_hdev_phase [0, 1, 2, 3, 4, 5, 6, 7, 8, 9] 1 2 2 = Inr (d2, e2, n2) \<and> n2 \<le> n1)
        \<and> (\<exists>d1 e1 n1 d2 e2 n2. calc_hdev_phase [0, 1, 2, 3, 4, 5, 6, 7, 8, 9] 1 1 1 = Inr (d1, e1, n1)
              \<and> calc_hdev_phase [0, 1, 2, 3, 4, 5, 6, 7, 8, 9] 1 2 1 = Inr (d2, e2, n2) \<and> n2 \<le> n1))"
    by (rule conjunct1)
  from mp [OF this h]
  have "\<exists>d1 e1 n1 d2 e2 n2. calc_adev_phase [0, 1, 2, 3, 4, 5, 6, 7, 8, 9] 1 1 1 = Inr (d1, e1, n1)
          \<and> calc_adev_phase [0, 1, 2, 3, 4, 5, 6, 7, 8, 9] 1 2 2 = Inr (d2, e2, n2) \<and> n2 \<le> n1"
    by (rule conjunct1)
  then obtain d1 e1 n1 d2 e2 n2 where
    r1: "calc_adev_phase [0, 1, 2, 3, 4, 5, 6, 7, 8, 9] 1 1 1 = Inr (d1, e1, n1)"
    and r2: "calc_adev_phase [0, 1, 2, 3, 4, 5, 6, 7, 8, 9] 1 2 2 = Inr (d2, e2, n2)"
    and le: "n2 \<le> n1"
    by (elim exE conjE)
  from r1 c1 have "n1 = 8" by simp
  moreover from r2 calc_adev_ramp_2 have "n2 = 3" by simp
  ultimately have cmp: "(3::nat) \<le> 8" using le by simp
  from inst have "\<forall>t d e ks. adev_phase [0, 1, 2, 3, 4, 5, 6, 7, 8, 9] 1 [1, 2, 3] = Inr (t, d, e, ks)
      \<longrightarrow> sorted_wrt (\<ge>) ks"
    by (elim conjE)
  from this [rule_format, OF adev_phase_ramp] have srt: "sorted_wrt (\<ge>) [8, 3, 2 :: nat]" .
  from h c1 calc_adev_ramp_2 cmp adev_phase_ramp srt show ?thesis
    by (intro conjI) simp_all
qed

subsection \<open>Empty windows\<close>

lemma slice_step_beyond:
  "0 < step \<Longrightarrow> length xs \<le> start \<Longrightarrow> slice_step start step xs = []"
  by (simp add: slice_step_def)

lemma calc_adev_phase_empty_window:
  assumes "0 < mj" and "0 < stride" and "length data \<le> 2 * mj"
  shows "calc_adev_phase data rate mj stride = Inr (Some 0, Some 0, 1)"
proof -
  from assms(2,3) have e: "slice_step (2 * mj) stride data = []"
    by (rule slice_step_beyond)
  from assms(1,2) show ?thesis
    by (simp add: calc_adev_phase_def e second_diff_def sum_sq_def np_div_def)
qed

lemma calc_hdev_phase_empty_window:
  assumes "0 < mj" and "0 < stride" and "rate \<noteq> 0" and "length data \<le> 3 * mj"
  shows "calc_hdev_phase data rate mj stride = Inr (Some 0, Some 0, 1)"
proof -
  from assms(2,4) have e: "slice_step (3 * mj) stride data = []"
    by (rule slice_step_beyond)
  from assms(1,2,3) show ?thesis
    by (simp add: calc_hdev_phase_def e third_diff_def sum_sq_def np_div_def Let_def)
qed

lemma totdev_step_two_samples: "totdev_step x rate 2 0 mj = (None, None, 0)"
  by (simp add: totdev_step_def sum_sq_def np_div_def Let_def)

lemma tau_m_two_samples: "tau_m [0, 1] 1 [1] = Inr ([0, 1], [1], [1])"
  by (simp add: tau_m_def np_unique_def)

lemma totdev_phase_two_samples: "totdev_phase [0, 1] 1 [1] = Inr ([], [], [], [])"
  by (simp add: totdev_phase_def tau_m_two_samples totdev_step_def sum_sq_def np_div_def
      filtered_def remove_small_ns_def mask_select_def Let_def)

text \<open>
  Claim C6. When no sample is available, \<open>calc_adev_phase\<close> and \<open>calc_hdev_phase\<close>
  set \<open>n = 1\<close> and return the deviation 0 (the lemmas above), and the filter removes the
  entry. \<open>totdev_phase\<close> has no such guard: on a series of two samples with m = 1 the
  sum runs over no sample, the divisor \<open>2 (mj / rate)\<^sup>2 (n - 2)\<close> is 0, the deviation is
  \<open>0.0 / 0.0 = nan\<close> and the count is 0, not 1; the filter still removes the entry.
\<close>

theorem totdev_two_samples_divides_by_zero:
  "tau_m [0, 1] 1 [1] = Inr ([0, 1], [1], [1])
   \<and> 2 * (real_of_int 1 / 1)\<^sup>2 * (real 2 - 2) = 0
   \<and> totdev_step ([] @ [0, 1] @ []) 1 2 0 1 = (None, None, 0)
   \<and> totdev_phase [0, 1] 1 [1] = Inr ([], [], [], [])
   \<and> calc_adev_phase [0, 1] 1 1 1 = Inr (Some 0, Some 0, 1)"
proof -
  have "2 * (real_of_int 1 / 1)\<^sup>2 * (real 2 - 2) = 0" by simp
  moreover have "calc_adev_phase [0, 1] 1 1 1 = Inr (Some 0, Some 0, 1)"
    by (rule calc_adev_phase_empty_window) simp_all
  moreover note tau_m_two_samples totdev_step_two_samples [of "[] @ [0, 1] @ []" 1 1]
    totdev_phase_two_samples
  ultimately show ?thesis by (intro conjI)
qed

end
